theory Spec2Isabelle
  imports Main "HOL-Library.Sublist"
begin

section \<open>The document template filler of \<open>src/main.py\<close>\<close>

text \<open>
  The theory embeds \<open>generate_monthly_report\<close> and its helpers
  (\<open>create_table_with_header\<close>, \<open>set_borders\<close>, \<open>set_cell_background\<close>,
  \<open>insert_title_table\<close>). The document library the code calls is modelled by the
  part of its object tree the code reads and writes: a body of blocks (paragraphs,
  tables, anything else), paragraphs made of runs, tables made of rows of cells, cells
  made of paragraphs. Strings are character lists. Python exceptions are values of
  the type \<open>exc\<close>; the file system is a map from paths to nodes, and the two library
  calls that touch it (opening and saving a document) are parameters.

  Assumptions about the document library, fixed here once: the body's paragraphs and
  tables are its direct children; cells are not merged and hold paragraphs only; the
  text of a run is stored as given; building a table on a loaded document does not
  fail in the library itself.
\<close>

subsection \<open>Strings\<close>

definition py_in :: "string \<Rightarrow> string \<Rightarrow> bool" where
  \<comment> \<open>\<^verbatim>\<open>x in s\<close> on strings: \<open>x\<close> occurs in \<open>s\<close> as a contiguous piece\<close>
  "py_in x s = sublist x s"

function replace_str :: "string \<Rightarrow> string \<Rightarrow> string \<Rightarrow> string" where
  \<comment> \<open>\<^verbatim>\<open>s.replace(old, new)\<close>: leftmost occurrences, not overlapping, in one pass\<close>
  "replace_str old new s =
     (if old = [] then new @ concat (map (\<lambda>c. c # new) s)
      else if s = [] then []
      else if prefix old s then new @ replace_str old new (drop (length old) s)
      else hd s # replace_str old new (tl s))"
  by pat_completeness auto
termination
  by (relation "measure (\<lambda>(old, new, s). length s)") auto

declare replace_str.simps [simp del]

definition lower_char :: "char \<Rightarrow> char" where
  "lower_char c =
     (let n = (of_char c :: nat) in if 65 \<le> n \<and> n \<le> 90 then char_of (n + 32) else c)"

definition lower :: "string \<Rightarrow> string" where
  "lower s = map lower_char s"

fun rfind :: "char \<Rightarrow> string \<Rightarrow> int" where
  \<comment> \<open>\<^verbatim>\<open>p.rfind(c)\<close>: the last index of \<open>c\<close>, or \<open>-1\<close>\<close>
  "rfind c [] = -1"
| "rfind c (x # xs) =
     (let r = rfind c xs in if r \<ge> 0 then r + 1 else if x = c then 0 else -1)"

definition splitext :: "string \<Rightarrow> string \<times> string" where
  \<comment> \<open>\<^verbatim>\<open>os.path.splitext\<close> with separator \<open>/\<close>: the extension starts at the last dot
      of the last component, dots that lead the component apart\<close>
  "splitext p =
     (let sepIndex = rfind (CHR ''/'') p;
          dotIndex = rfind (CHR ''.'') p
      in if dotIndex > sepIndex
            \<and> list_ex (\<lambda>c. c \<noteq> CHR ''.'')
                 (take (nat (dotIndex - (sepIndex + 1))) (drop (nat (sepIndex + 1)) p))
         then (take (nat dotIndex) p, drop (nat dotIndex) p)
         else (p, []))"

subsection \<open>The document tree\<close>

datatype alignment = LEFT | CENTER | RIGHT | JUSTIFY | DISTRIBUTE

record run =
  r_bold :: "bool option"
  r_props :: string
  r_text :: string

record para =
  p_alignment :: "alignment option"
  p_props :: string
  p_runs :: "run list"

record cell =
  c_width :: "nat option"
  c_shading :: "string list"
  c_props :: string
  c_paragraphs :: "para list"

record border =
  b_name :: string
  b_val :: string
  b_sz :: string
  b_space :: string
  b_color :: string

record table =
  t_jc :: "string list"
  t_style :: "string option"
  t_borders :: "border list option"
  t_props :: string
  t_rows :: "cell list list"

datatype block = Paragraph para | Table table | Other string

record document =
  d_styles :: "string list"
  d_body :: "block list"

definition para_text :: "para \<Rightarrow> string" where
  \<comment> \<open>\<^verbatim>\<open>para.text\<close>: the texts of the runs, joined\<close>
  "para_text p = concat (map r_text (p_runs p))"

definition new_run :: "string \<Rightarrow> run" where
  "new_run t = \<lparr>r_bold = None, r_props = [], r_text = t\<rparr>"

definition set_para_text :: "para \<Rightarrow> string \<Rightarrow> para" where
  \<comment> \<open>\<^verbatim>\<open>para.text = t\<close>: every run is removed and one new run holds \<open>t\<close>;
      the paragraph's own properties stay\<close>
  "set_para_text p t = p\<lparr>p_runs := [new_run t]\<rparr>"

definition set_alignment :: "para \<Rightarrow> alignment \<Rightarrow> para" where
  "set_alignment p a = p\<lparr>p_alignment := Some a\<rparr>"

definition new_paragraph :: "run list \<Rightarrow> para" where
  "new_paragraph rs = \<lparr>p_alignment = None, p_props = [], p_runs = rs\<rparr>"

fun join_lines :: "string list \<Rightarrow> string" where
  \<comment> \<open>\<^verbatim>\<open>"\n".join(ts)\<close>\<close>
  "join_lines [] = []"
| "join_lines [t] = t"
| "join_lines (t # u # ts) = t @ CHR 0x0A # join_lines (u # ts)"

definition cell_text :: "cell \<Rightarrow> string" where
  \<comment> \<open>\<^verbatim>\<open>cell.text\<close>: the texts of the cell's paragraphs, one per line\<close>
  "cell_text c = join_lines (map para_text (c_paragraphs c))"

definition set_cell_text :: "cell \<Rightarrow> string \<Rightarrow> cell" where
  \<comment> \<open>\<^verbatim>\<open>cell.text = t\<close>: the cell's content is removed and one new paragraph with
      one new run holds \<open>t\<close>; the cell's own properties stay\<close>
  "set_cell_text c t = c\<lparr>c_paragraphs := [new_paragraph [new_run t]]\<rparr>"

definition justify_cell :: "cell \<Rightarrow> cell" where
  \<comment> \<open>\<^verbatim>\<open>for p in cell.paragraphs: p.alignment = JUSTIFY\<close>\<close>
  "justify_cell c = c\<lparr>c_paragraphs := map (\<lambda>p. set_alignment p JUSTIFY) (c_paragraphs c)\<rparr>"

subsection \<open>Exceptions and results\<close>

datatype exc = KeyError string | IndexError | LibraryError string

fun str_exc :: "exc \<Rightarrow> string" where
  \<comment> \<open>\<^verbatim>\<open>str(e)\<close>\<close>
  "str_exc (KeyError k) = CHR 0x27 # k @ [CHR 0x27]"
| "str_exc IndexError = ''list index out of range''"
| "str_exc (LibraryError m) = m"

datatype result = Error string | Message string

type_synonym pydict = "string \<rightharpoonup> string"

subsection \<open>Building the tables\<close>

definition Inches_4_5 :: nat where "Inches_4_5 = 4114800"
definition Inches_1_5 :: nat where "Inches_1_5 = 1371600"
definition Inches_2_5 :: nat where "Inches_2_5 = 2286000"
definition Inches_3_0 :: nat where "Inches_3_0 = 2743200"

definition set_borders :: "table \<Rightarrow> table" where
  "set_borders t =
     t\<lparr>t_borders := Some (map (\<lambda>n. \<lparr>b_name = n, b_val = ''single'', b_sz = ''5'',
                                     b_space = ''0'', b_color = ''#bcbcbc''\<rparr>)
          [''top'', ''left'', ''bottom'', ''right'', ''insideH'', ''insideV''])\<rparr>"

definition set_cell_background :: "cell \<Rightarrow> string \<Rightarrow> cell" where
  "set_cell_background c color_hex = c\<lparr>c_shading := c_shading c @ [color_hex]\<rparr>"

definition new_cell :: cell where
  \<comment> \<open>a cell of a new table or of a new row: one empty paragraph\<close>
  "new_cell = \<lparr>c_width = None, c_shading = [], c_props = [], c_paragraphs = [new_paragraph []]\<rparr>"

fun header_cells :: "string list \<Rightarrow> nat list \<Rightarrow> exc + cell list" where
  \<comment> \<open>the loop over \<^verbatim>\<open>enumerate(headers)\<close>; \<^verbatim>\<open>widths[i]\<close> raises when \<open>widths\<close> is
      the shorter list\<close>
  "header_cells [] ws = Inr []"
| "header_cells (h # hs) [] = Inl IndexError"
| "header_cells (h # hs) (w # ws) =
     (case header_cells hs ws of
        Inl e \<Rightarrow> Inl e
      | Inr cs \<Rightarrow>
          Inr (set_cell_background
                 (new_cell\<lparr>c_paragraphs := [new_paragraph [(new_run h)\<lparr>r_bold := Some True\<rparr>]],
                           c_width := Some w\<rparr>) ''#f4f4f4'' # cs))"

definition create_table_with_header :: "document \<Rightarrow> string list \<Rightarrow> nat list \<Rightarrow> exc + table" where
  "create_table_with_header doc headers widths =
     (let table = \<lparr>t_jc = [''center''], t_style = None, t_borders = None, t_props = [],
                   t_rows = []\<rparr>;
          table = (if ''Table Grid'' \<in> set (d_styles doc)
                   then table\<lparr>t_style := Some ''Table Grid''\<rparr>
                   else set_borders table)
      in case header_cells headers widths of
           Inl e \<Rightarrow> Inl e
         | Inr hdr \<Rightarrow> Inr (table\<lparr>t_rows := [hdr]\<rparr>))"

definition insert_title_table :: para where
  \<comment> \<open>the paragraph put where the marker's paragraph was: one run, no text\<close>
  "insert_title_table = new_paragraph [new_run []]"

definition getitem :: "pydict \<Rightarrow> string \<Rightarrow> exc + string" where
  \<comment> \<open>\<^verbatim>\<open>item[key]\<close>\<close>
  "getitem item k = (case item k of None \<Rightarrow> Inl (KeyError k) | Some v \<Rightarrow> Inr v)"

definition data_cell :: "string \<Rightarrow> nat \<Rightarrow> cell" where
  \<comment> \<open>a cell of an added row after \<^verbatim>\<open>.text = t\<close> and \<^verbatim>\<open>.width = w\<close>\<close>
  "data_cell t w = (set_cell_text new_cell t)\<lparr>c_width := Some w\<rparr>"

fun title_rows :: "pydict list \<Rightarrow> exc + cell list list" where
  \<comment> \<open>the loop \<^verbatim>\<open>for item in title_activities\<close>\<close>
  "title_rows [] = Inr []"
| "title_rows (item # items) =
     (case getitem item ''actividad'' of
        Inl e \<Rightarrow> Inl e
      | Inr a \<Rightarrow>
     (case getitem item ''mes'' of
        Inl e \<Rightarrow> Inl e
      | Inr m \<Rightarrow>
     (case title_rows items of
        Inl e \<Rightarrow> Inl e
      | Inr rows \<Rightarrow> Inr ([data_cell a Inches_4_5, data_cell m Inches_1_5] # rows))))"

fun description_rows :: "pydict list \<Rightarrow> exc + cell list list" where
  \<comment> \<open>the loop \<^verbatim>\<open>for item in description_activities\<close>\<close>
  "description_rows [] = Inr []"
| "description_rows (item # items) =
     (case getitem item ''actividad'' of
        Inl e \<Rightarrow> Inl e
      | Inr a \<Rightarrow>
     (case getitem item ''descripcion'' of
        Inl e \<Rightarrow> Inl e
      | Inr d \<Rightarrow>
     (case getitem item ''verificador'' of
        Inl e \<Rightarrow> Inl e
      | Inr v \<Rightarrow>
     (case description_rows items of
        Inl e \<Rightarrow> Inl e
      | Inr rows \<Rightarrow>
          Inr ([data_cell a Inches_2_5, data_cell d Inches_3_0, data_cell v Inches_1_5]
               # rows)))))"

definition title_table :: "document \<Rightarrow> pydict list \<Rightarrow> exc + table" where
  \<comment> \<open>lines 231 to 238: the table for \<open>{titleActivities}\<close>\<close>
  "title_table doc title_activities =
     (case create_table_with_header doc [''ACTIVIDADES'', ''MESES''] [Inches_4_5, Inches_1_5] of
        Inl e \<Rightarrow> Inl e
      | Inr table \<Rightarrow>
     (case title_rows title_activities of
        Inl e \<Rightarrow> Inl e
      | Inr rows \<Rightarrow> Inr (table\<lparr>t_rows := t_rows table @ rows\<rparr>)))"

definition description_table :: "document \<Rightarrow> pydict list \<Rightarrow> exc + table" where
  \<comment> \<open>lines 243 to 252: the table for \<open>{descriptionActivities}\<close>\<close>
  "description_table doc description_activities =
     (case create_table_with_header doc
             [''Actividad Planificada'', ''Actividad Ejecutada'', ''Verificador'']
             [Inches_2_5, Inches_3_0, Inches_1_5] of
        Inl e \<Rightarrow> Inl e
      | Inr table \<Rightarrow>
     (case description_rows description_activities of
        Inl e \<Rightarrow> Inl e
      | Inr rows \<Rightarrow> Inr (table\<lparr>t_rows := t_rows table @ rows\<rparr>)))"

subsection \<open>The three passes of \<open>generate_monthly_report\<close>\<close>

fun table_markers_pass ::
  "document \<Rightarrow> pydict list \<Rightarrow> pydict list \<Rightarrow> block list \<Rightarrow> exc + block list \<times> bool" where
  \<comment> \<open>lines 223 to 254, over the body's children in document order: a paragraph with a
      table marker is removed; the new paragraph goes to its index and the table to the
      index after it\<close>
  "table_markers_pass doc title_activities description_activities [] = Inr ([], False)"
| "table_markers_pass doc title_activities description_activities (Paragraph p # bs) =
     (if py_in ''{titleActivities}'' (para_text p) \<or> py_in ''{descriptionActivities}'' (para_text p)
      then
        (case (if py_in ''{titleActivities}'' (para_text p)
               then (case title_table doc title_activities of
                       Inl e \<Rightarrow> Inl e
                     | Inr table \<Rightarrow> Inr [Paragraph insert_title_table, Table table])
               else if py_in ''{descriptionActivities}'' (para_text p)
               then (case description_table doc description_activities of
                       Inl e \<Rightarrow> Inl e
                     | Inr table \<Rightarrow> Inr [Paragraph insert_title_table, Table table])
               else Inr []) of
           Inl e \<Rightarrow> Inl e
         | Inr new \<Rightarrow>
             (case table_markers_pass doc title_activities description_activities bs of
                Inl e \<Rightarrow> Inl e
              | Inr (bs', replaced) \<Rightarrow> Inr (new @ bs', True)))
      else
        (case table_markers_pass doc title_activities description_activities bs of
           Inl e \<Rightarrow> Inl e
         | Inr (bs', replaced) \<Rightarrow> Inr (Paragraph p # bs', replaced)))"
| "table_markers_pass doc title_activities description_activities (b # bs) =
     (case table_markers_pass doc title_activities description_activities bs of
        Inl e \<Rightarrow> Inl e
      | Inr (bs', replaced) \<Rightarrow> Inr (b # bs', replaced))"

definition has_text_marker :: "string \<Rightarrow> bool" where
  \<comment> \<open>\<^verbatim>\<open>any(x in text for x in [...])\<close>\<close>
  "has_text_marker t =
     list_ex (\<lambda>x. py_in x t) [''{activities}'', ''{month}'', ''{conclusions}'', ''{recommendations}'']"

definition fill_paragraph :: "string \<Rightarrow> string \<Rightarrow> string \<Rightarrow> string \<Rightarrow> para \<Rightarrow> para \<times> bool" where
  \<comment> \<open>lines 258 to 270, for one paragraph\<close>
  "fill_paragraph month activities conclusiones recommendations p =
     (if has_text_marker (para_text p) then
        let p = (if py_in ''{activities}'' (para_text p)
                 then set_alignment
                        (set_para_text p (replace_str ''{activities}'' activities (para_text p)))
                        JUSTIFY
                 else p);
            p = (if py_in ''{month}'' (para_text p)
                 then set_para_text p (replace_str ''{month}'' month (para_text p))
                 else p);
            p = (if py_in ''{conclusions}'' (para_text p)
                 then set_alignment
                        (set_para_text p (replace_str ''{conclusions}'' conclusiones (para_text p)))
                        JUSTIFY
                 else p);
            p = (if py_in ''{recommendations}'' (para_text p)
                 then set_alignment
                        (set_para_text p
                           (replace_str ''{recommendations}'' recommendations (para_text p)))
                        JUSTIFY
                 else p)
        in (p, True)
      else (p, False))"

fun paragraphs_pass ::
  "string \<Rightarrow> string \<Rightarrow> string \<Rightarrow> string \<Rightarrow> block list \<Rightarrow> block list \<times> bool" where
  \<comment> \<open>lines 257 to 270: the loop over the body's paragraphs\<close>
  "paragraphs_pass month activities conclusiones recommendations [] = ([], False)"
| "paragraphs_pass month activities conclusiones recommendations (Paragraph p # bs) =
     (let (p', r) = fill_paragraph month activities conclusiones recommendations p;
          (bs', replaced) = paragraphs_pass month activities conclusiones recommendations bs
      in (Paragraph p' # bs', r \<or> replaced))"
| "paragraphs_pass month activities conclusiones recommendations (b # bs) =
     (let (bs', replaced) = paragraphs_pass month activities conclusiones recommendations bs
      in (b # bs', replaced))"

definition fill_cell :: "string \<Rightarrow> string \<Rightarrow> string \<Rightarrow> string \<Rightarrow> cell \<Rightarrow> cell \<times> bool" where
  \<comment> \<open>lines 276 to 291, for one cell\<close>
  "fill_cell month activities conclusiones recommendations c =
     (if has_text_marker (cell_text c) then
        let c = (if py_in ''{activities}'' (cell_text c)
                 then justify_cell
                        (set_cell_text c (replace_str ''{activities}'' activities (cell_text c)))
                 else c);
            c = (if py_in ''{month}'' (cell_text c)
                 then set_cell_text c (replace_str ''{month}'' month (cell_text c))
                 else c);
            c = (if py_in ''{conclusions}'' (cell_text c)
                 then justify_cell
                        (set_cell_text c (replace_str ''{conclusions}'' conclusiones (cell_text c)))
                 else c);
            c = (if py_in ''{recommendations}'' (cell_text c)
                 then justify_cell
                        (set_cell_text c
                           (replace_str ''{recommendations}'' recommendations (cell_text c)))
                 else c)
        in (c, True)
      else (c, False))"

fun fill_cells :: "string \<Rightarrow> string \<Rightarrow> string \<Rightarrow> string \<Rightarrow> cell list \<Rightarrow> cell list \<times> bool" where
  \<comment> \<open>\<^verbatim>\<open>for cell in row.cells\<close>\<close>
  "fill_cells month activities conclusiones recommendations [] = ([], False)"
| "fill_cells month activities conclusiones recommendations (c # cs) =
     (let (c', r) = fill_cell month activities conclusiones recommendations c;
          (cs', replaced) = fill_cells month activities conclusiones recommendations cs
      in (c' # cs', r \<or> replaced))"

fun fill_rows ::
  "string \<Rightarrow> string \<Rightarrow> string \<Rightarrow> string \<Rightarrow> cell list list \<Rightarrow> cell list list \<times> bool" where
  \<comment> \<open>\<^verbatim>\<open>for row in table.rows\<close>\<close>
  "fill_rows month activities conclusiones recommendations [] = ([], False)"
| "fill_rows month activities conclusiones recommendations (row # rows) =
     (let (row', r) = fill_cells month activities conclusiones recommendations row;
          (rows', replaced) = fill_rows month activities conclusiones recommendations rows
      in (row' # rows', r \<or> replaced))"

fun tables_pass ::
  "string \<Rightarrow> string \<Rightarrow> string \<Rightarrow> string \<Rightarrow> block list \<Rightarrow> block list \<times> bool" where
  \<comment> \<open>lines 273 to 291: the loop over \<^verbatim>\<open>doc.tables\<close>, read after the first two passes\<close>
  "tables_pass month activities conclusiones recommendations [] = ([], False)"
| "tables_pass month activities conclusiones recommendations (Table t # bs) =
     (let (rows', r) = fill_rows month activities conclusiones recommendations (t_rows t);
          (bs', replaced) = tables_pass month activities conclusiones recommendations bs
      in (Table (t\<lparr>t_rows := rows'\<rparr>) # bs', r \<or> replaced))"
| "tables_pass month activities conclusiones recommendations (b # bs) =
     (let (bs', replaced) = tables_pass month activities conclusiones recommendations bs
      in (b # bs', replaced))"

subsection \<open>The file system and the operation\<close>

datatype 'c node = File 'c | Directory

type_synonym 'c fs = "string \<rightharpoonup> 'c node"

definition isfile :: "'c fs \<Rightarrow> string \<Rightarrow> bool" where
  \<comment> \<open>\<^verbatim>\<open>os.path.isfile\<close>\<close>
  "isfile fs p = (case fs p of Some (File c) \<Rightarrow> True | _ \<Rightarrow> False)"

datatype event = OpenDocument string | SaveDocument string document

definition fill_blocks ::
  "document \<Rightarrow> string \<Rightarrow> string \<Rightarrow> string \<Rightarrow> string \<Rightarrow> pydict list \<Rightarrow> pydict list \<Rightarrow>
   block list \<Rightarrow> exc + block list \<times> bool" where
  \<comment> \<open>lines 221 to 291 on the children of the body: the three passes, one after the
      other, and the flag \<^verbatim>\<open>replaced\<close>\<close>
  "fill_blocks doc month activities conclusiones recommendations title_activities
       description_activities body =
     (case table_markers_pass doc title_activities description_activities body of
        Inl e \<Rightarrow> Inl e
      | Inr (body1, replaced1) \<Rightarrow>
          let (body2, replaced2) =
                paragraphs_pass month activities conclusiones recommendations body1;
              (body3, replaced3) =
                tables_pass month activities conclusiones recommendations body2
          in Inr (body3, replaced1 \<or> replaced2 \<or> replaced3))"

definition fill_document ::
  "document \<Rightarrow> string \<Rightarrow> string \<Rightarrow> string \<Rightarrow> string \<Rightarrow> pydict list \<Rightarrow> pydict list \<Rightarrow>
   exc + document \<times> bool" where
  \<comment> \<open>lines 221 to 291 on the loaded document\<close>
  "fill_document doc month activities conclusiones recommendations title_activities
       description_activities =
     (case fill_blocks doc month activities conclusiones recommendations title_activities
             description_activities (d_body doc) of
        Inl e \<Rightarrow> Inl e
      | Inr (body', replaced) \<Rightarrow> Inr (doc\<lparr>d_body := body'\<rparr>, replaced))"

definition generate_monthly_report_body ::
  "('c fs \<Rightarrow> string \<Rightarrow> exc + document) \<Rightarrow>
   ('c fs \<Rightarrow> string \<Rightarrow> document \<Rightarrow> exc option \<times> 'c fs) \<Rightarrow>
   'c fs \<Rightarrow> string \<Rightarrow> string \<Rightarrow> string \<Rightarrow> string \<Rightarrow> string \<Rightarrow> pydict list \<Rightarrow> pydict list \<Rightarrow>
   (exc + result) \<times> 'c fs \<times> event list" where
  \<comment> \<open>lines 213 to 297, the body of the \<^verbatim>\<open>try\<close>. \<open>Document\<close> is the library's loader
      (\<open>Inl\<close> when it raises), \<open>save\<close> its writer (an exception or none, and the file
      system it leaves). The third component lists the library's file accesses, a save
      with the document it was given.\<close>
  "generate_monthly_report_body Document save fs report_filepath month activities conclusiones
       recommendations title_activities description_activities =
     (if \<not> isfile fs report_filepath
      then (Inr (Error (''File '' @ [CHR 0x27] @ report_filepath @ [CHR 0x27]
                        @ '' does not exist.'')), fs, [])
      else
        let ext = lower (snd (splitext report_filepath)) in
        if ext \<notin> set [''.doc'', ''.docx'']
        then (Inr (Error ''Only DOC or DOCX files are supported.''), fs, [])
        else
          (case Document fs report_filepath of
             Inl e \<Rightarrow> (Inl e, fs, [OpenDocument report_filepath])
           | Inr doc \<Rightarrow>
          (case fill_document doc month activities conclusiones recommendations
                  title_activities description_activities of
             Inl e \<Rightarrow> (Inl e, fs, [OpenDocument report_filepath])
           | Inr (doc', replaced) \<Rightarrow>
               if replaced
               then
                 (case save fs report_filepath doc' of
                    (Some e, fs') \<Rightarrow>
                      (Inl e, fs',
                       [OpenDocument report_filepath, SaveDocument report_filepath doc'])
                  | (None, fs') \<Rightarrow>
                      (Inr (Message (''Replaced placeholders and saved '' @ [CHR 0x27]
                                     @ report_filepath @ [CHR 0x27] @ ''.'')),
                       fs', [OpenDocument report_filepath, SaveDocument report_filepath doc']))
               else (Inr (Message ''No placeholders found in the document.''), fs,
                     [OpenDocument report_filepath]))))"

definition generate_monthly_report ::
  "('c fs \<Rightarrow> string \<Rightarrow> exc + document) \<Rightarrow>
   ('c fs \<Rightarrow> string \<Rightarrow> document \<Rightarrow> exc option \<times> 'c fs) \<Rightarrow>
   'c fs \<Rightarrow> string \<Rightarrow> string \<Rightarrow> string \<Rightarrow> string \<Rightarrow> string \<Rightarrow> pydict list \<Rightarrow> pydict list \<Rightarrow>
   result \<times> 'c fs \<times> event list" where
  \<comment> \<open>the whole operation: \<^verbatim>\<open>except Exception as e: return {"error": str(e)}\<close>\<close>
  "generate_monthly_report Document save fs report_filepath month activities conclusiones
       recommendations title_activities description_activities =
     (case generate_monthly_report_body Document save fs report_filepath month activities
             conclusiones recommendations title_activities description_activities of
        (Inl e, fs', evs) \<Rightarrow> (Error (str_exc e), fs', evs)
      | (Inr r, fs', evs) \<Rightarrow> (r, fs', evs))"

subsection \<open>Markers and texts of a document\<close>

definition text_markers :: "string list" where
  "text_markers = [''{activities}'', ''{month}'', ''{conclusions}'', ''{recommendations}'']"

definition table_markers :: "string list" where
  "table_markers = [''{titleActivities}'', ''{descriptionActivities}'']"

definition markers :: "string list" where
  "markers = text_markers @ table_markers"

fun block_texts :: "block \<Rightarrow> string list" where
  \<comment> \<open>the paragraph text or the cell texts of a child of the body\<close>
  "block_texts (Paragraph p) = [para_text p]"
| "block_texts (Table t) = map cell_text (concat (t_rows t))"
| "block_texts (Other x) = []"

definition document_texts :: "document \<Rightarrow> string list" where
  "document_texts doc = concat (map block_texts (d_body doc))"

definition marker_free :: "string \<Rightarrow> bool" where
  \<comment> \<open>none of the six markers occurs in the text\<close>
  "marker_free t = list_all (\<lambda>m. \<not> py_in m t) markers"

definition table_texts :: "block list \<Rightarrow> string list list list" where
  \<comment> \<open>for each table of the body, its rows of cell texts\<close>
  "table_texts bs = concat (map (\<lambda>b. case b of Table t \<Rightarrow> [map (map cell_text) (t_rows t)] | _ \<Rightarrow> []) bs)"

subsection \<open>Example inputs\<close>

text \<open>
  A file system whose files hold documents, with a loader that reads the stored tree
  and a writer that stores the tree it is given.
\<close>

definition load_file :: "document fs \<Rightarrow> string \<Rightarrow> exc + document" where
  "load_file fs p =
     (case fs p of Some (File d) \<Rightarrow> Inr d | _ \<Rightarrow> Inl (LibraryError ''Package not found''))"

definition store_file :: "document fs \<Rightarrow> string \<Rightarrow> document \<Rightarrow> exc option \<times> document fs" where
  "store_file fs p d = (None, fs(p \<mapsto> File d))"

definition text_paragraph :: "string \<Rightarrow> para" where
  "text_paragraph t = new_paragraph [new_run t]"

definition text_cell :: "string \<Rightarrow> cell" where
  "text_cell t = new_cell\<lparr>c_paragraphs := [text_paragraph t]\<rparr>"

definition plain_table :: "cell list list \<Rightarrow> table" where
  "plain_table rows = \<lparr>t_jc = [], t_style = None, t_borders = None, t_props = [], t_rows = rows\<rparr>"

definition plain_document :: document where
  "plain_document =
     \<lparr>d_styles = [''Normal''],
      d_body = [Paragraph (text_paragraph ''Informe''), Table (plain_table [[text_cell ''Total'']]),
                Other ''sectPr'']\<rparr>"

definition title_document :: document where
  "title_document =
     \<lparr>d_styles = [''Normal''],
      d_body = [Paragraph (text_paragraph ''Report: {titleActivities}''), Other ''sectPr'']\<rparr>"

definition failing_store :: "document fs \<Rightarrow> string \<Rightarrow> document \<Rightarrow> exc option \<times> document fs" where
  "failing_store fs p d = (Some (LibraryError ''Permission denied''), fs)"

definition march_title_row :: pydict where
  "march_title_row = [''actividad'' \<mapsto> ''A'', ''mes'' \<mapsto> ''March'']"

definition march_description_row :: pydict where
  "march_description_row =
     [''actividad'' \<mapsto> ''A'', ''descripcion'' \<mapsto> ''B'', ''verificador'' \<mapsto> ''Oficio 14'']"

definition both_markers_document :: document where
  "both_markers_document =
     \<lparr>d_styles = [''Normal'', ''Table Grid''],
      d_body = [Paragraph (text_paragraph ''Informe''),
                Paragraph (text_paragraph ''{titleActivities} {descriptionActivities}''),
                Other ''sectPr'']\<rparr>"

definition marker_row :: pydict where
  "marker_row = [''actividad'' \<mapsto> ''Plan {month}'', ''mes'' \<mapsto> ''{month}'']"

definition table_marker_document :: document where
  "table_marker_document =
     \<lparr>d_styles = [''Normal''], d_body = [Paragraph (text_paragraph ''{titleActivities}'')]\<rparr>"

definition cell_marker_document :: document where
  "cell_marker_document =
     \<lparr>d_styles = [''Normal''],
      d_body = [Paragraph (text_paragraph ''{month}''),
                Table (plain_table [[text_cell ''{titleActivities}'']])]\<rparr>"

definition bold_month_document :: document where
  "bold_month_document =
     \<lparr>d_styles = [''Normal''],
      d_body = [Paragraph \<lparr>p_alignment = Some LEFT, p_props = ''Heading 1'',
                  p_runs = [\<lparr>r_bold = Some True, r_props = [], r_text = ''Mes: ''\<rparr>,
                            \<lparr>r_bold = None, r_props = [], r_text = ''{month}''\<rparr>]\<rparr>]\<rparr>"

definition centered_month_document :: document where
  "centered_month_document =
     \<lparr>d_styles = [''Normal''],
      d_body = [Table (plain_table
                  [[new_cell\<lparr>c_paragraphs :=
                      [\<lparr>p_alignment = Some CENTER, p_props = [],
                        p_runs = [new_run ''{month}'']\<rparr>]\<rparr>]])]\<rparr>"

subsection \<open>Texts in which the substitutions cannot create a marker\<close>

definition brace_marker :: "string \<Rightarrow> bool" where
  \<comment> \<open>the shape of the six markers: an opening brace, a name without braces, a
      closing brace\<close>
  "brace_marker m =
     (\<exists>b. m = CHR ''{'' # b @ [CHR ''}''] \<and> CHR ''{'' \<notin> set b \<and> CHR ''}'' \<notin> set b)"

fun nonest_from :: "bool \<Rightarrow> string \<Rightarrow> bool" where
  \<comment> \<open>no opening brace follows an opening brace before the next closing brace;
      the flag says whether an opening brace is pending\<close>
  "nonest_from inside [] = True"
| "nonest_from inside (c # cs) =
     (if c = CHR ''{'' then \<not> inside \<and> nonest_from True cs
      else if c = CHR ''}'' then nonest_from False cs
      else nonest_from inside cs)"

definition no_nested_braces :: "string \<Rightarrow> bool" where
  "no_nested_braces t = nonest_from False t"

definition fill_text :: "string \<Rightarrow> string \<Rightarrow> string \<Rightarrow> string \<Rightarrow> string \<Rightarrow> string" where
  \<comment> \<open>the text a paragraph or a cell reads after the four guarded substitutions of
      lines 259 to 269 and 277 to 290\<close>
  "fill_text month activities conclusiones recommendations t =
     (let t = (if py_in ''{activities}'' t then replace_str ''{activities}'' activities t else t);
          t = (if py_in ''{month}'' t then replace_str ''{month}'' month t else t);
          t = (if py_in ''{conclusions}'' t then replace_str ''{conclusions}'' conclusiones t
               else t);
          t = (if py_in ''{recommendations}'' t
               then replace_str ''{recommendations}'' recommendations t else t)
      in t)"

definition aligned_paragraph :: "alignment \<Rightarrow> string \<Rightarrow> para" where
  "aligned_paragraph a t = \<lparr>p_alignment = Some a, p_props = ''Normal'', p_runs = [new_run t]\<rparr>"

definition aligned_cell :: "alignment \<Rightarrow> string \<Rightarrow> cell" where
  "aligned_cell a t =
     \<lparr>c_width = Some 1000, c_shading = [], c_props = [], c_paragraphs = [aligned_paragraph a t]\<rparr>"

section \<open>Properties\<close>

subsection \<open>A document without markers\<close>

lemma table_markers_pass_none:
  "\<forall>b \<in> set bs. \<forall>p. b = Paragraph p \<longrightarrow>
      \<not> py_in ''{titleActivities}'' (para_text p)
      \<and> \<not> py_in ''{descriptionActivities}'' (para_text p)
   \<Longrightarrow> table_markers_pass doc ta da bs = Inr (bs, False)"
proof (induction bs)
  case Nil
  show ?case by simp
next
  case (Cons b bs)
  then have rest: "table_markers_pass doc ta da bs = Inr (bs, False)" by simp
  show ?case
  proof (cases b)
    case (Paragraph p)
    with Cons.prems rest show ?thesis by simp
  qed (simp_all add: rest)
qed

lemma fill_paragraph_none:
  "\<not> has_text_marker (para_text p) \<Longrightarrow> fill_paragraph m a c r p = (p, False)"
  by (simp add: fill_paragraph_def)

lemma paragraphs_pass_none:
  "\<forall>b \<in> set bs. \<forall>p. b = Paragraph p \<longrightarrow> \<not> has_text_marker (para_text p)
   \<Longrightarrow> paragraphs_pass m a c r bs = (bs, False)"
proof (induction bs)
  case Nil
  show ?case by simp
next
  case (Cons b bs)
  then have rest: "paragraphs_pass m a c r bs = (bs, False)" by simp
  show ?case
  proof (cases b)
    case (Paragraph p)
    with Cons.prems rest show ?thesis by (simp add: fill_paragraph_none)
  qed (simp_all add: rest)
qed

lemma fill_cell_none:
  "\<not> has_text_marker (cell_text c) \<Longrightarrow> fill_cell m a co r c = (c, False)"
  by (simp add: fill_cell_def)

lemma fill_cells_none:
  "\<forall>c \<in> set cs. \<not> has_text_marker (cell_text c) \<Longrightarrow> fill_cells m a co r cs = (cs, False)"
  by (induction cs) (simp_all add: fill_cell_none)

lemma fill_rows_none:
  "\<forall>row \<in> set rows. \<forall>c \<in> set row. \<not> has_text_marker (cell_text c)
   \<Longrightarrow> fill_rows m a co r rows = (rows, False)"
  by (induction rows) (simp_all add: fill_cells_none)

lemma tables_pass_none:
  "\<forall>b \<in> set bs. \<forall>t. b = Table t \<longrightarrow>
      (\<forall>row \<in> set (t_rows t). \<forall>c \<in> set row. \<not> has_text_marker (cell_text c))
   \<Longrightarrow> tables_pass m a co r bs = (bs, False)"
proof (induction bs)
  case Nil
  show ?case by simp
next
  case (Cons b bs)
  then have rest: "tables_pass m a co r bs = (bs, False)" by simp
  show ?case
  proof (cases b)
    case (Table t)
    with Cons.prems have "fill_rows m a co r (t_rows t) = (t_rows t, False)"
      by (intro fill_rows_none) simp
    with Table rest show ?thesis by simp
  qed (simp_all add: rest)
qed

lemma marker_free_table:
  "marker_free t \<Longrightarrow>
   \<not> py_in ''{titleActivities}'' t \<and> \<not> py_in ''{descriptionActivities}'' t"
  by (simp add: marker_free_def markers_def text_markers_def table_markers_def)

lemma marker_free_text: "marker_free t \<Longrightarrow> \<not> has_text_marker t"
  by (simp add: marker_free_def markers_def text_markers_def table_markers_def
      has_text_marker_def)

lemma fill_blocks_marker_free:
  assumes "\<forall>t \<in> set (concat (map block_texts bs)). marker_free t"
  shows "fill_blocks doc m a co r ta da bs = Inr (bs, False)"
proof -
  have 1: "table_markers_pass doc ta da bs = Inr (bs, False)"
  proof (rule table_markers_pass_none, intro ballI allI impI)
    fix b p assume "b \<in> set bs" "b = Paragraph p"
    then have "para_text p \<in> set (concat (map block_texts bs))" by force
    with assms show "\<not> py_in ''{titleActivities}'' (para_text p)
        \<and> \<not> py_in ''{descriptionActivities}'' (para_text p)"
      using marker_free_table by blast
  qed
  have 2: "paragraphs_pass m a co r bs = (bs, False)"
  proof (rule paragraphs_pass_none, intro ballI allI impI)
    fix b p assume "b \<in> set bs" "b = Paragraph p"
    then have "para_text p \<in> set (concat (map block_texts bs))" by force
    with assms show "\<not> has_text_marker (para_text p)"
      using marker_free_text by blast
  qed
  have 3: "tables_pass m a co r bs = (bs, False)"
  proof (rule tables_pass_none, intro ballI allI impI)
    fix b t row c
    assume "b \<in> set bs" "b = Table t" "row \<in> set (t_rows t)" "c \<in> set row"
    then have "cell_text c \<in> set (concat (map block_texts bs))" by force
    with assms show "\<not> has_text_marker (cell_text c)"
      using marker_free_text by blast
  qed
  show ?thesis by (simp add: fill_blocks_def 1 2 3)
qed

lemma example_path_docx: "lower (snd (splitext ''informe.docx'')) = ''.docx''"
  by code_simp

lemma plain_document_marker_free: "list_all marker_free (document_texts plain_document)"
  by code_simp

text \<open>
  C6. When the path names an existing file with a supported extension, the file loads
  as a document and none of the six markers occurs in a paragraph text or a cell text
  of it, the operation returns the message that no placeholders were found, not an
  error; the document is not saved (the only file access is the load) and the file
  system is the one before the call.
\<close>

theorem no_markers_no_save:
  assumes "isfile fs report_filepath"
    and "lower (snd (splitext report_filepath)) \<in> {''.doc'', ''.docx''}"
    and "Document fs report_filepath = Inr doc"
    and "list_all marker_free (document_texts doc)"
  shows "generate_monthly_report Document save fs report_filepath month activities conclusiones
           recommendations title_activities description_activities
         = (Message ''No placeholders found in the document.'', fs,
            [OpenDocument report_filepath])"
proof -
  have "fill_document doc month activities conclusiones recommendations title_activities
          description_activities = Inr (doc, False)"
    using assms(4)
    by (simp add: fill_document_def document_texts_def fill_blocks_marker_free list_all_iff)
  with assms(1-3) show ?thesis
    by (auto simp: generate_monthly_report_def generate_monthly_report_body_def Let_def)
qed

theorem no_markers_no_save_witness:
  "isfile [''informe.docx'' \<mapsto> File plain_document] ''informe.docx''
   \<and> lower (snd (splitext ''informe.docx'')) \<in> {''.doc'', ''.docx''}
   \<and> load_file [''informe.docx'' \<mapsto> File plain_document] ''informe.docx'' = Inr plain_document
   \<and> list_all marker_free (document_texts plain_document)
   \<and> generate_monthly_report load_file store_file [''informe.docx'' \<mapsto> File plain_document]
        ''informe.docx'' ''Enero'' ''a'' ''c'' ''r'' [] []
      = (Message ''No placeholders found in the document.'',
         [''informe.docx'' \<mapsto> File plain_document], [OpenDocument ''informe.docx''])"
proof -
  have h1: "isfile [''informe.docx'' \<mapsto> File plain_document] ''informe.docx''"
    by (simp add: isfile_def)
  have h2: "lower (snd (splitext ''informe.docx'')) \<in> {''.doc'', ''.docx''}"
    by (simp add: example_path_docx)
  have h3: "load_file [''informe.docx'' \<mapsto> File plain_document] ''informe.docx''
            = Inr plain_document"
    by (simp add: load_file_def)
  note h4 = plain_document_marker_free
  from no_markers_no_save [where Document = load_file and doc = plain_document, OF h1 h2 h3 h4]
    h1 h2 h3 h4 show ?thesis by simp
qed

subsection \<open>Errors\<close>

text \<open>
  C8. When the path does not name an existing file, the operation returns an error
  result whose message contains the path; no file is opened or saved and the file
  system is the one before the call.
\<close>

theorem missing_file_error:
  assumes "\<not> isfile fs report_filepath"
  shows "generate_monthly_report Document save fs report_filepath month activities conclusiones
           recommendations title_activities description_activities
         = (Error (''File '' @ [CHR 0x27] @ report_filepath @ [CHR 0x27] @ '' does not exist.''),
            fs, [])
       \<and> py_in report_filepath
           (''File '' @ [CHR 0x27] @ report_filepath @ [CHR 0x27] @ '' does not exist.'')"
proof -
  have "sublist report_filepath
          ((''File '' @ [CHR 0x27]) @ report_filepath @ ([CHR 0x27] @ '' does not exist.''))"
    by (rule sublist_appendI)
  then show ?thesis using assms
    by (simp add: generate_monthly_report_def generate_monthly_report_body_def py_in_def)
qed

theorem missing_file_error_witness:
  "\<not> isfile [''datos'' \<mapsto> (Directory :: document node)] ''datos''
   \<and> generate_monthly_report load_file store_file [''datos'' \<mapsto> Directory] ''datos''
        ''Enero'' ''a'' ''c'' ''r'' [] []
      = (Error (''File '' @ [CHR 0x27] @ ''datos'' @ [CHR 0x27] @ '' does not exist.''),
         [''datos'' \<mapsto> Directory], [])"
proof -
  have h: "\<not> isfile [''datos'' \<mapsto> (Directory :: document node)] ''datos''"
    by (simp add: isfile_def)
  from missing_file_error [OF h] h show ?thesis by simp
qed

text \<open>
  C9. When the path names an existing file and its extension, in lower case, is
  neither \<open>.doc\<close> nor \<open>.docx\<close>, the operation returns the error result for an
  unsupported format; the file is not opened as a document (no file access is made)
  and the file system is the one before the call.
\<close>

theorem unsupported_extension_error:
  assumes "isfile fs report_filepath"
    and "lower (snd (splitext report_filepath)) \<notin> {''.doc'', ''.docx''}"
  shows "generate_monthly_report Document save fs report_filepath month activities conclusiones
           recommendations title_activities description_activities
         = (Error ''Only DOC or DOCX files are supported.'', fs, [])"
  using assms
  by (simp add: generate_monthly_report_def generate_monthly_report_body_def Let_def)

lemma example_path_txt: "lower (snd (splitext ''notas/informe.v2.TXT'')) = ''.txt''"
  by code_simp

theorem unsupported_extension_error_witness:
  "isfile [''notas/informe.v2.TXT'' \<mapsto> File plain_document] ''notas/informe.v2.TXT''
   \<and> lower (snd (splitext ''notas/informe.v2.TXT'')) \<notin> {''.doc'', ''.docx''}
   \<and> generate_monthly_report load_file store_file
        [''notas/informe.v2.TXT'' \<mapsto> File plain_document] ''notas/informe.v2.TXT''
        ''Enero'' ''a'' ''c'' ''r'' [] []
      = (Error ''Only DOC or DOCX files are supported.'',
         [''notas/informe.v2.TXT'' \<mapsto> File plain_document], [])"
proof -
  have h1: "isfile [''notas/informe.v2.TXT'' \<mapsto> File plain_document] ''notas/informe.v2.TXT''"
    by (simp add: isfile_def)
  have h2: "lower (snd (splitext ''notas/informe.v2.TXT'')) \<notin> {''.doc'', ''.docx''}"
    by (simp add: example_path_txt)
  from unsupported_extension_error [OF h1 h2] h1 h2 show ?thesis by simp
qed

subsection \<open>The passes are local to each child of the body\<close>

lemma table_markers_pass_append:
  "table_markers_pass doc ta da (xs @ ys) =
     (case table_markers_pass doc ta da xs of
        Inl e \<Rightarrow> Inl e
      | Inr (xs', r1) \<Rightarrow>
          (case table_markers_pass doc ta da ys of
             Inl e \<Rightarrow> Inl e
           | Inr (ys', r2) \<Rightarrow> Inr (xs' @ ys', r1 \<or> r2)))"
proof (induction xs)
  case Nil
  show ?case by (simp split: sum.split)
next
  case (Cons b bs)
  show ?case
  proof (cases b)
    case (Paragraph p)
    then show ?thesis using Cons.IH by (simp split: sum.split prod.split)
  next
    case (Table t)
    then show ?thesis using Cons.IH by (simp split: sum.split prod.split)
  next
    case (Other x)
    then show ?thesis using Cons.IH by (simp split: sum.split prod.split)
  qed
qed

lemma paragraphs_pass_append:
  "paragraphs_pass m a c r (xs @ ys) =
     (fst (paragraphs_pass m a c r xs) @ fst (paragraphs_pass m a c r ys),
      snd (paragraphs_pass m a c r xs) \<or> snd (paragraphs_pass m a c r ys))"
proof (induction xs)
  case Nil
  show ?case by simp
next
  case (Cons b bs)
  then show ?case by (cases b) (simp_all add: split_beta)
qed

lemma tables_pass_append:
  "tables_pass m a c r (xs @ ys) =
     (fst (tables_pass m a c r xs) @ fst (tables_pass m a c r ys),
      snd (tables_pass m a c r xs) \<or> snd (tables_pass m a c r ys))"
proof (induction xs)
  case Nil
  show ?case by simp
next
  case (Cons b bs)
  then show ?case by (cases b) (simp_all add: split_beta)
qed

lemma fill_blocks_append:
  "fill_blocks doc m a c r ta da (xs @ ys) =
     (case fill_blocks doc m a c r ta da xs of
        Inl e \<Rightarrow> Inl e
      | Inr (xs', r1) \<Rightarrow>
          (case fill_blocks doc m a c r ta da ys of
             Inl e \<Rightarrow> Inl e
           | Inr (ys', r2) \<Rightarrow> Inr (xs' @ ys', r1 \<or> r2)))"
  by (auto simp: fill_blocks_def table_markers_pass_append paragraphs_pass_append
      tables_pass_append split_beta split: sum.split)

lemma header_cell_text:
  "cell_text (set_cell_background
       (new_cell\<lparr>c_paragraphs := [new_paragraph [(new_run h)\<lparr>r_bold := Some True\<rparr>]],
                 c_width := Some w\<rparr>) color) = h"
  by (simp add: cell_text_def set_cell_background_def new_cell_def para_text_def
      new_paragraph_def new_run_def)

lemma header_cells_texts:
  "length ws = length hs \<Longrightarrow>
   \<exists>cs. header_cells hs ws = Inr cs \<and> map cell_text cs = hs"
proof (induction hs ws rule: header_cells.induct)
  case (1 ws)
  then show ?case by simp
next
  case (2 h hs)
  then show ?case by simp
next
  case (3 h hs w ws)
  then obtain cs where "header_cells hs ws = Inr cs" "map cell_text cs = hs" by auto
  then show ?case by (simp add: header_cell_text)
qed

lemma create_table_with_header_rows:
  "length ws = length hs \<Longrightarrow>
   \<exists>t. create_table_with_header doc hs ws = Inr t \<and> map (map cell_text) (t_rows t) = [hs]"
  using header_cells_texts [of ws hs]
  by (auto simp: create_table_with_header_def Let_def set_borders_def)

lemma data_cell_text: "cell_text (data_cell t w) = t"
  by (simp add: data_cell_def set_cell_text_def cell_text_def para_text_def new_paragraph_def
      new_run_def)

lemma title_rows_texts:
  "list_all (\<lambda>item. item ''actividad'' \<noteq> None \<and> item ''mes'' \<noteq> None) ta \<Longrightarrow>
   \<exists>rows. title_rows ta = Inr rows
     \<and> map (map cell_text) rows = map (\<lambda>item. [the (item ''actividad''), the (item ''mes'')]) ta"
proof (induction ta)
  case Nil
  show ?case by simp
next
  case (Cons item items)
  then obtain rows where "title_rows items = Inr rows"
    "map (map cell_text) rows = map (\<lambda>item. [the (item ''actividad''), the (item ''mes'')]) items"
    by auto
  moreover from Cons.prems obtain x y where "item ''actividad'' = Some x" "item ''mes'' = Some y"
    by auto
  ultimately show ?case by (simp add: getitem_def data_cell_text)
qed

lemma description_rows_texts:
  "list_all (\<lambda>item. item ''actividad'' \<noteq> None \<and> item ''descripcion'' \<noteq> None
                    \<and> item ''verificador'' \<noteq> None) da \<Longrightarrow>
   \<exists>rows. description_rows da = Inr rows
     \<and> map (map cell_text) rows
       = map (\<lambda>item. [the (item ''actividad''), the (item ''descripcion''),
                        the (item ''verificador'')]) da"
proof (induction da)
  case Nil
  show ?case by simp
next
  case (Cons item items)
  then obtain rows where "description_rows items = Inr rows"
    "map (map cell_text) rows
       = map (\<lambda>item. [the (item ''actividad''), the (item ''descripcion''),
                        the (item ''verificador'')]) items"
    by auto
  moreover from Cons.prems obtain x y z where
    "item ''actividad'' = Some x" "item ''descripcion'' = Some y" "item ''verificador'' = Some z"
    by auto
  ultimately show ?case by (simp add: getitem_def data_cell_text)
qed

lemma title_table_texts:
  assumes "list_all (\<lambda>item. item ''actividad'' \<noteq> None \<and> item ''mes'' \<noteq> None) ta"
  shows "\<exists>t. title_table doc ta = Inr t
     \<and> map (map cell_text) (t_rows t)
       = [''ACTIVIDADES'', ''MESES'']
         # map (\<lambda>item. [the (item ''actividad''), the (item ''mes'')]) ta"
proof -
  obtain t0 where t0: "create_table_with_header doc [''ACTIVIDADES'', ''MESES'']
       [Inches_4_5, Inches_1_5] = Inr t0"
    "map (map cell_text) (t_rows t0) = [[''ACTIVIDADES'', ''MESES'']]"
    using create_table_with_header_rows [of "[Inches_4_5, Inches_1_5]" "[''ACTIVIDADES'', ''MESES'']" doc]
    by auto
  obtain rows where rows: "title_rows ta = Inr rows"
    "map (map cell_text) rows = map (\<lambda>item. [the (item ''actividad''), the (item ''mes'')]) ta"
    using title_rows_texts [OF assms] by auto
  show ?thesis by (simp add: title_table_def t0 rows)
qed

lemma description_table_texts:
  assumes "list_all (\<lambda>item. item ''actividad'' \<noteq> None \<and> item ''descripcion'' \<noteq> None
                    \<and> item ''verificador'' \<noteq> None) da"
  shows "\<exists>t. description_table doc da = Inr t
     \<and> map (map cell_text) (t_rows t)
       = [''Actividad Planificada'', ''Actividad Ejecutada'', ''Verificador'']
         # map (\<lambda>item. [the (item ''actividad''), the (item ''descripcion''),
                          the (item ''verificador'')]) da"
proof -
  obtain t0 where t0: "create_table_with_header doc
       [''Actividad Planificada'', ''Actividad Ejecutada'', ''Verificador'']
       [Inches_2_5, Inches_3_0, Inches_1_5] = Inr t0"
    "map (map cell_text) (t_rows t0)
       = [[''Actividad Planificada'', ''Actividad Ejecutada'', ''Verificador'']]"
    using create_table_with_header_rows [of "[Inches_2_5, Inches_3_0, Inches_1_5]"
        "[''Actividad Planificada'', ''Actividad Ejecutada'', ''Verificador'']" doc]
    by auto
  obtain rows where rows: "description_rows da = Inr rows"
    "map (map cell_text) rows
       = map (\<lambda>item. [the (item ''actividad''), the (item ''descripcion''),
                        the (item ''verificador'')]) da"
    using description_rows_texts [OF assms] by auto
  show ?thesis by (simp add: description_table_def t0 rows)
qed

lemma rows_shape:
  assumes "map (map cell_text) rows = hs # map f xs" and "length hs = n"
    and "\<forall>x. length (f x) = n"
  shows "length rows = length xs + 1 \<and> list_all (\<lambda>row. length row = n) rows"
proof -
  have "length (map (map cell_text) rows) = length xs + 1" using assms(1) by simp
  then have len: "length rows = length xs + 1" by simp
  have "list_all (\<lambda>row. length row = n) (map (map cell_text) rows)"
    using assms by (simp add: list_all_iff)
  then have "list_all (\<lambda>row. length row = n) rows" by (simp add: list_all_iff)
  with len show ?thesis by simp
qed

subsection \<open>Exceptions at the boundary of the operation\<close>

lemmas tree_defs =
  para_text_def new_run_def set_para_text_def set_alignment_def new_paragraph_def
  cell_text_def set_cell_text_def justify_cell_def set_borders_def set_cell_background_def
  new_cell_def insert_title_table_def data_cell_def text_paragraph_def text_cell_def
  plain_table_def table_texts_def

lemmas fill_defs =
  fill_document_def fill_blocks_def title_table_def description_table_def
  create_table_with_header_def getitem_def fill_paragraph_def fill_cell_def
  has_text_marker_def

lemma py_in_Nil: "py_in x [] = (x = [])"
  by (simp add: py_in_def)

lemma py_in_Cons: "py_in x (c # cs) = (prefix x (c # cs) \<or> py_in x cs)"
  by (simp add: py_in_def sublist_Cons_right)

lemma title_document_fill:
  "\<exists>d. fill_document title_document ''Enero'' ''a'' ''c'' ''r'' [march_title_row] []
         = Inr (d, True)
       \<and> table_texts (d_body d) = [[[''ACTIVIDADES'', ''MESES''], [''A'', ''March'']]]"
  by (simp add: fill_defs tree_defs title_document_def march_title_row_def py_in_Nil py_in_Cons)

lemma title_document_missing_key:
  "fill_document title_document ''Enero'' ''a'' ''c'' ''r'' [Map.empty] []
   = Inl (KeyError ''actividad'')"
  by (simp add: fill_defs tree_defs title_document_def py_in_Nil py_in_Cons)

text \<open>
  C7. The operation returns a result for every input, and an exception raised inside
  it becomes an error result that carries the exception's message: for a path that
  passes the two checks, an exception of the loader, an exception while the tables
  are built, and an exception of the writer each give the result \<open>Error\<close> with
  \<open>str(e)\<close>.
\<close>

theorem exceptions_become_error_results:
  assumes "isfile fs report_filepath"
    and "lower (snd (splitext report_filepath)) \<in> {''.doc'', ''.docx''}"
  shows "(\<forall>e. Document fs report_filepath = Inl e \<longrightarrow>
            generate_monthly_report Document save fs report_filepath month activities
              conclusiones recommendations title_activities description_activities
            = (Error (str_exc e), fs, [OpenDocument report_filepath]))
       \<and> (\<forall>doc e. Document fs report_filepath = Inr doc
              \<and> fill_document doc month activities conclusiones recommendations
                    title_activities description_activities = Inl e \<longrightarrow>
            generate_monthly_report Document save fs report_filepath month activities
              conclusiones recommendations title_activities description_activities
            = (Error (str_exc e), fs, [OpenDocument report_filepath]))
       \<and> (\<forall>doc doc' e fs'. Document fs report_filepath = Inr doc
              \<and> fill_document doc month activities conclusiones recommendations
                    title_activities description_activities = Inr (doc', True)
              \<and> save fs report_filepath doc' = (Some e, fs') \<longrightarrow>
            generate_monthly_report Document save fs report_filepath month activities
              conclusiones recommendations title_activities description_activities
            = (Error (str_exc e), fs',
               [OpenDocument report_filepath, SaveDocument report_filepath doc']))"
  using assms
  by (auto simp: generate_monthly_report_def generate_monthly_report_body_def Let_def)

theorem exceptions_become_error_results_witness:
  "isfile [''informe.docx'' \<mapsto> File title_document] ''informe.docx''
   \<and> lower (snd (splitext ''informe.docx'')) \<in> {''.doc'', ''.docx''}
   \<and> generate_monthly_report (\<lambda>fs p. Inl (LibraryError ''File is not a zip file'')) store_file
        [''informe.docx'' \<mapsto> File title_document] ''informe.docx'' ''Enero'' ''a'' ''c'' ''r''
        [march_title_row] []
      = (Error ''File is not a zip file'', [''informe.docx'' \<mapsto> File title_document],
         [OpenDocument ''informe.docx''])
   \<and> generate_monthly_report load_file store_file
        [''informe.docx'' \<mapsto> File title_document] ''informe.docx'' ''Enero'' ''a'' ''c'' ''r''
        [Map.empty] []
      = (Error (CHR 0x27 # ''actividad'' @ [CHR 0x27]),
         [''informe.docx'' \<mapsto> File title_document], [OpenDocument ''informe.docx''])
   \<and> fst (generate_monthly_report load_file failing_store
        [''informe.docx'' \<mapsto> File title_document] ''informe.docx'' ''Enero'' ''a'' ''c'' ''r''
        [march_title_row] [])
      = Error ''Permission denied''"
proof -
  let ?fs = "[''informe.docx'' \<mapsto> File title_document]"
  have h1: "isfile ?fs ''informe.docx''"
    by (simp add: isfile_def)
  have h2: "lower (snd (splitext ''informe.docx'')) \<in> {''.doc'', ''.docx''}"
    by (simp add: example_path_docx)
  have l: "load_file ?fs ''informe.docx'' = Inr title_document"
    by (simp add: load_file_def)
  have a: "generate_monthly_report (\<lambda>fs p. Inl (LibraryError ''File is not a zip file''))
        store_file ?fs ''informe.docx'' ''Enero'' ''a'' ''c'' ''r'' [march_title_row] []
      = (Error ''File is not a zip file'', ?fs, [OpenDocument ''informe.docx''])"
    using exceptions_become_error_results
      [where Document = "\<lambda>fs p. Inl (LibraryError ''File is not a zip file'')"
         and save = store_file and month = "''Enero''" and activities = "''a''"
         and conclusiones = "''c''" and recommendations = "''r''"
         and title_activities = "[march_title_row]" and description_activities = "[]",
       OF h1 h2]
    by simp
  have b: "generate_monthly_report load_file store_file ?fs ''informe.docx'' ''Enero'' ''a''
        ''c'' ''r'' [Map.empty] []
      = (Error (CHR 0x27 # ''actividad'' @ [CHR 0x27]), ?fs, [OpenDocument ''informe.docx''])"
    using exceptions_become_error_results
      [where Document = load_file and save = store_file and month = "''Enero''"
         and activities = "''a''" and conclusiones = "''c''" and recommendations = "''r''"
         and title_activities = "[Map.empty]" and description_activities = "[]",
       OF h1 h2] l title_document_missing_key
    by simp
  have c: "fst (generate_monthly_report load_file failing_store ?fs ''informe.docx'' ''Enero''
        ''a'' ''c'' ''r'' [march_title_row] []) = Error ''Permission denied''"
    using exceptions_become_error_results
      [where Document = load_file and save = failing_store and month = "''Enero''"
         and activities = "''a''" and conclusiones = "''c''" and recommendations = "''r''"
         and title_activities = "[march_title_row]" and description_activities = "[]",
       OF h1 h2] l title_document_fill
    by (auto simp: failing_store_def)
  from h1 h2 a b c show ?thesis by simp
qed

subsection \<open>The generated tables\<close>

lemma table_markers_pass_title:
  assumes "py_in ''{titleActivities}'' (para_text p)"
  shows "table_markers_pass doc ta da [Paragraph p] =
     (case title_table doc ta of
        Inl e \<Rightarrow> Inl e
      | Inr t \<Rightarrow> Inr ([Paragraph insert_title_table, Table t], True))"
  using assms by (simp split: sum.split)

lemma table_markers_pass_description:
  assumes "\<not> py_in ''{titleActivities}'' (para_text p)"
    and "py_in ''{descriptionActivities}'' (para_text p)"
  shows "table_markers_pass doc ta da [Paragraph p] =
     (case description_table doc da of
        Inl e \<Rightarrow> Inl e
      | Inr t \<Rightarrow> Inr ([Paragraph insert_title_table, Table t], True))"
  using assms by (simp split: sum.split)

text \<open>
  C2. When every entry of \<open>title_activities\<close> has the keys \<open>actividad\<close> and \<open>mes\<close>
  and every entry of \<open>description_activities\<close> has the keys \<open>actividad\<close>,
  \<open>descripcion\<close> and \<open>verificador\<close>, both tables are built. The table put in place
  of a paragraph with \<open>{titleActivities}\<close> has one row more than \<open>title_activities\<close>
  has entries and two cells in every row; its first row reads ACTIVIDADES, MESES and
  row \<open>k + 1\<close> reads the activity and the month of entry \<open>k\<close>. The table put in place
  of a paragraph with \<open>{descriptionActivities}\<close> (and without \<open>{titleActivities}\<close>)
  has one row more than \<open>description_activities\<close> has entries and three cells in every
  row, row \<open>k + 1\<close> reading activity, description and verifier of entry \<open>k\<close>.
\<close>

theorem generated_tables_shape:
  assumes "list_all (\<lambda>item. item ''actividad'' \<noteq> None \<and> item ''mes'' \<noteq> None) title_activities"
    and "list_all (\<lambda>item. item ''actividad'' \<noteq> None \<and> item ''descripcion'' \<noteq> None
                           \<and> item ''verificador'' \<noteq> None) description_activities"
  shows "\<exists>tt dt.
      title_table doc title_activities = Inr tt
    \<and> description_table doc description_activities = Inr dt
    \<and> (\<forall>p. py_in ''{titleActivities}'' (para_text p) \<longrightarrow>
           table_markers_pass doc title_activities description_activities [Paragraph p]
           = Inr ([Paragraph insert_title_table, Table tt], True))
    \<and> (\<forall>p. \<not> py_in ''{titleActivities}'' (para_text p)
             \<and> py_in ''{descriptionActivities}'' (para_text p) \<longrightarrow>
           table_markers_pass doc title_activities description_activities [Paragraph p]
           = Inr ([Paragraph insert_title_table, Table dt], True))
    \<and> length (t_rows tt) = length title_activities + 1
    \<and> list_all (\<lambda>row. length row = 2) (t_rows tt)
    \<and> map cell_text (t_rows tt ! 0) = [''ACTIVIDADES'', ''MESES'']
    \<and> (\<forall>k < length title_activities.
          map cell_text (t_rows tt ! (k + 1))
          = [the ((title_activities ! k) ''actividad''), the ((title_activities ! k) ''mes'')])
    \<and> length (t_rows dt) = length description_activities + 1
    \<and> list_all (\<lambda>row. length row = 3) (t_rows dt)
    \<and> (\<forall>k < length description_activities.
          map cell_text (t_rows dt ! (k + 1))
          = [the ((description_activities ! k) ''actividad''),
             the ((description_activities ! k) ''descripcion''),
             the ((description_activities ! k) ''verificador'')])"
proof -
  let ?f = "\<lambda>item :: pydict. [the (item ''actividad''), the (item ''mes'')]"
  let ?g = "\<lambda>item :: pydict. [the (item ''actividad''), the (item ''descripcion''),
                                   the (item ''verificador'')]"
  obtain tt where tt: "title_table doc title_activities = Inr tt"
    "map (map cell_text) (t_rows tt) = [''ACTIVIDADES'', ''MESES''] # map ?f title_activities"
    using title_table_texts [OF assms(1), of doc] by auto
  obtain dt where dt: "description_table doc description_activities = Inr dt"
    "map (map cell_text) (t_rows dt)
     = [''Actividad Planificada'', ''Actividad Ejecutada'', ''Verificador'']
       # map ?g description_activities"
    using description_table_texts [OF assms(2), of doc] by auto
  have shape_t: "length (t_rows tt) = length title_activities + 1
      \<and> list_all (\<lambda>row. length row = 2) (t_rows tt)"
    by (rule rows_shape [OF tt(2)]) simp_all
  have shape_d: "length (t_rows dt) = length description_activities + 1
      \<and> list_all (\<lambda>row. length row = 3) (t_rows dt)"
    by (rule rows_shape [OF dt(2)]) simp_all
  have row_t: "map cell_text (t_rows tt ! k) = ([''ACTIVIDADES'', ''MESES''] # map ?f title_activities) ! k"
    if "k < length (t_rows tt)" for k
  proof -
    have "map cell_text (t_rows tt ! k) = map (map cell_text) (t_rows tt) ! k"
      using that by simp
    then show ?thesis by (simp only: tt(2))
  qed
  have row_d: "map cell_text (t_rows dt ! k)
      = ([''Actividad Planificada'', ''Actividad Ejecutada'', ''Verificador'']
         # map ?g description_activities) ! k"
    if "k < length (t_rows dt)" for k
  proof -
    have "map cell_text (t_rows dt ! k) = map (map cell_text) (t_rows dt) ! k"
      using that by simp
    then show ?thesis by (simp only: dt(2))
  qed
  have hdr: "map cell_text (t_rows tt ! 0) = [''ACTIVIDADES'', ''MESES'']"
    using row_t [of 0] shape_t by simp
  have data_t: "\<forall>k < length title_activities.
      map cell_text (t_rows tt ! (k + 1))
      = [the ((title_activities ! k) ''actividad''), the ((title_activities ! k) ''mes'')]"
  proof (intro allI impI)
    fix k assume k: "k < length title_activities"
    then have "k + 1 < length (t_rows tt)" using shape_t by simp
    from row_t [OF this] k show "map cell_text (t_rows tt ! (k + 1))
      = [the ((title_activities ! k) ''actividad''), the ((title_activities ! k) ''mes'')]"
      by simp
  qed
  have data_d: "\<forall>k < length description_activities.
      map cell_text (t_rows dt ! (k + 1))
      = [the ((description_activities ! k) ''actividad''),
         the ((description_activities ! k) ''descripcion''),
         the ((description_activities ! k) ''verificador'')]"
  proof (intro allI impI)
    fix k assume k: "k < length description_activities"
    then have "k + 1 < length (t_rows dt)" using shape_d by simp
    from row_d [OF this] k show "map cell_text (t_rows dt ! (k + 1))
      = [the ((description_activities ! k) ''actividad''),
         the ((description_activities ! k) ''descripcion''),
         the ((description_activities ! k) ''verificador'')]"
      by simp
  qed
  have pass_t: "\<forall>p. py_in ''{titleActivities}'' (para_text p) \<longrightarrow>
         table_markers_pass doc title_activities description_activities [Paragraph p]
         = Inr ([Paragraph insert_title_table, Table tt], True)"
    by (simp add: table_markers_pass_title tt(1) del: table_markers_pass.simps)
  have pass_d: "\<forall>p. \<not> py_in ''{titleActivities}'' (para_text p)
           \<and> py_in ''{descriptionActivities}'' (para_text p) \<longrightarrow>
         table_markers_pass doc title_activities description_activities [Paragraph p]
         = Inr ([Paragraph insert_title_table, Table dt], True)"
    by (simp add: table_markers_pass_description dt(1) del: table_markers_pass.simps)
  show ?thesis
    apply (rule exI [of _ tt])
    apply (rule exI [of _ dt])
    apply (insert tt(1) dt(1) pass_t pass_d shape_t [THEN conjunct1] shape_t [THEN conjunct2]
        hdr data_t shape_d [THEN conjunct1] shape_d [THEN conjunct2] data_d)
    apply (intro conjI)
              apply assumption+
    done
qed

lemma march_rows_keys:
  "list_all (\<lambda>item. item ''actividad'' \<noteq> None \<and> item ''mes'' \<noteq> None) [march_title_row]"
  "list_all (\<lambda>item. item ''actividad'' \<noteq> None \<and> item ''descripcion'' \<noteq> None
                    \<and> item ''verificador'' \<noteq> None) [march_description_row]"
  by (simp_all add: march_title_row_def march_description_row_def)

theorem generated_tables_shape_witness:
  "list_all (\<lambda>item. item ''actividad'' \<noteq> None \<and> item ''mes'' \<noteq> None) [march_title_row]
   \<and> list_all (\<lambda>item. item ''actividad'' \<noteq> None \<and> item ''descripcion'' \<noteq> None
                       \<and> item ''verificador'' \<noteq> None) [march_description_row]
   \<and> (\<exists>tt dt.
        table_markers_pass title_document [march_title_row] [march_description_row]
          [Paragraph (text_paragraph ''Report: {titleActivities}'')]
        = Inr ([Paragraph insert_title_table, Table tt], True)
      \<and> table_markers_pass title_document [march_title_row] [march_description_row]
          [Paragraph (text_paragraph ''{descriptionActivities}'')]
        = Inr ([Paragraph insert_title_table, Table dt], True)
      \<and> length (t_rows tt) = 2
      \<and> map cell_text (t_rows tt ! 0) = [''ACTIVIDADES'', ''MESES'']
      \<and> map cell_text (t_rows tt ! 1) = [''A'', ''March'']
      \<and> length (t_rows dt) = 2
      \<and> map cell_text (t_rows dt ! 1) = [''A'', ''B'', ''Oficio 14''])"
proof -
  have t: "py_in ''{titleActivities}'' (para_text (text_paragraph ''Report: {titleActivities}''))"
    by (simp add: tree_defs py_in_Nil py_in_Cons)
  have d: "\<not> py_in ''{titleActivities}'' (para_text (text_paragraph ''{descriptionActivities}''))
      \<and> py_in ''{descriptionActivities}'' (para_text (text_paragraph ''{descriptionActivities}''))"
    by (simp add: tree_defs py_in_Nil py_in_Cons)
  obtain tt dt where
    "table_markers_pass title_document [march_title_row] [march_description_row]
          [Paragraph (text_paragraph ''Report: {titleActivities}'')]
        = Inr ([Paragraph insert_title_table, Table tt], True)"
    "table_markers_pass title_document [march_title_row] [march_description_row]
          [Paragraph (text_paragraph ''{descriptionActivities}'')]
        = Inr ([Paragraph insert_title_table, Table dt], True)"
    "length (t_rows tt) = 2"
    "map cell_text (t_rows tt ! 0) = [''ACTIVIDADES'', ''MESES'']"
    "map cell_text (t_rows tt ! 1) = [''A'', ''March'']"
    "length (t_rows dt) = 2"
    "map cell_text (t_rows dt ! 1) = [''A'', ''B'', ''Oficio 14'']"
    using generated_tables_shape [OF march_rows_keys, of title_document] t d
    by (auto simp: march_title_row_def march_description_row_def)
  then have "\<exists>tt dt.
        table_markers_pass title_document [march_title_row] [march_description_row]
          [Paragraph (text_paragraph ''Report: {titleActivities}'')]
        = Inr ([Paragraph insert_title_table, Table tt], True)
      \<and> table_markers_pass title_document [march_title_row] [march_description_row]
          [Paragraph (text_paragraph ''{descriptionActivities}'')]
        = Inr ([Paragraph insert_title_table, Table dt], True)
      \<and> length (t_rows tt) = 2
      \<and> map cell_text (t_rows tt ! 0) = [''ACTIVIDADES'', ''MESES'']
      \<and> map cell_text (t_rows tt ! 1) = [''A'', ''March'']
      \<and> length (t_rows dt) = 2
      \<and> map cell_text (t_rows dt ! 1) = [''A'', ''B'', ''Oficio 14'']"
    apply -
    apply (rule exI [of _ tt])
    apply (rule exI [of _ dt])
    apply (intro conjI)
          apply assumption+
    done
  with march_rows_keys show ?thesis by simp
qed

text \<open>
  C10. A paragraph whose text contains both \<open>{titleActivities}\<close> and
  \<open>{descriptionActivities}\<close> is removed, and what takes its place among the children
  of the body is the new empty paragraph followed by the title table alone: the
  description table is not built for it. The children before and after it are
  processed as they are without it.
\<close>

theorem both_table_markers_title_only:
  assumes "py_in ''{titleActivities}'' (para_text p)"
    and "py_in ''{descriptionActivities}'' (para_text p)"
  shows "table_markers_pass doc title_activities description_activities
           (before @ Paragraph p # after) =
     (case table_markers_pass doc title_activities description_activities before of
        Inl e \<Rightarrow> Inl e
      | Inr (before', r1) \<Rightarrow>
     (case title_table doc title_activities of
        Inl e \<Rightarrow> Inl e
      | Inr t \<Rightarrow>
     (case table_markers_pass doc title_activities description_activities after of
        Inl e \<Rightarrow> Inl e
      | Inr (after', r2) \<Rightarrow>
          Inr (before' @ [Paragraph insert_title_table, Table t] @ after', True))))"
proof -
  have "before @ Paragraph p # after = before @ ([Paragraph p] @ after)" by simp
  then show ?thesis
    using table_markers_pass_title [OF assms(1), of doc title_activities description_activities]
    by (simp only: table_markers_pass_append) (simp split: sum.split prod.split)
qed

theorem both_table_markers_title_only_witness:
  "py_in ''{titleActivities}'' (para_text (text_paragraph ''{titleActivities} {descriptionActivities}''))
   \<and> py_in ''{descriptionActivities}''
        (para_text (text_paragraph ''{titleActivities} {descriptionActivities}''))
   \<and> (\<exists>body'. table_markers_pass both_markers_document [march_title_row] [march_description_row]
                  (d_body both_markers_document) = Inr (body', True)
         \<and> table_texts body' = [[[''ACTIVIDADES'', ''MESES''], [''A'', ''March'']]]
         \<and> length body' = 4)"
proof -
  let ?p = "text_paragraph ''{titleActivities} {descriptionActivities}''"
  have h1: "py_in ''{titleActivities}'' (para_text ?p)"
    by (simp add: tree_defs py_in_Nil py_in_Cons)
  have h2: "py_in ''{descriptionActivities}'' (para_text ?p)"
    by (simp add: tree_defs py_in_Nil py_in_Cons)
  have pre: "table_markers_pass both_markers_document [march_title_row] [march_description_row]
      [Paragraph (text_paragraph ''Informe'')] = Inr ([Paragraph (text_paragraph ''Informe'')], False)"
    by (simp add: tree_defs py_in_Nil py_in_Cons)
  have tt: "\<exists>t. title_table both_markers_document [march_title_row] = Inr t
      \<and> map (map cell_text) (t_rows t) = [[''ACTIVIDADES'', ''MESES''], [''A'', ''March'']]"
    using title_table_texts [OF march_rows_keys(1), of both_markers_document]
    by (simp add: march_title_row_def)
  have body: "d_body both_markers_document
      = [Paragraph (text_paragraph ''Informe'')] @ Paragraph ?p # [Other ''sectPr'']"
    by (simp add: both_markers_document_def)
  from tt h1 h2 show ?thesis
    using both_table_markers_title_only [OF h1 h2, of both_markers_document "[march_title_row]"
        "[march_description_row]" "[Paragraph (text_paragraph ''Informe'')]" "[Other ''sectPr'']"]
    unfolding body pre by (auto simp: table_texts_def)
qed

subsection \<open>The substitution pass reaches the generated tables\<close>

text \<open>
  C4. The loop over the body's tables runs after the table-marker pass and reads the
  tables the body has then, the generated ones among them. For a document whose only
  paragraph is \<open>{titleActivities}\<close>, a row with the texts \<open>Plan {month}\<close> and
  \<open>{month}\<close>, and the month \<open>Enero\<close>, the cells of the generated table read
  \<open>Plan Enero\<close> and \<open>Enero\<close>: the row texts are not kept as given.
\<close>

theorem generated_table_is_substituted:
  "\<exists>d. fill_document table_marker_document ''Enero'' ''a'' ''c'' ''r'' [marker_row] []
         = Inr (d, True)
       \<and> table_texts (d_body d)
         = [[[''ACTIVIDADES'', ''MESES''], [''Plan Enero'', ''Enero'']]]"
  by (simp add: fill_defs tree_defs table_marker_document_def marker_row_def py_in_Nil py_in_Cons
      replace_str.simps)

subsection \<open>Inputs on which the claims as stated fail\<close>

theorem marker_left_in_cell:
  "\<exists>d. generate_monthly_report load_file store_file
          [''informe.docx'' \<mapsto> File cell_marker_document] ''informe.docx''
          ''Enero'' ''a'' ''c'' ''r'' [] []
        = (Message (''Replaced placeholders and saved '' @ [CHR 0x27] @ ''informe.docx''
                    @ [CHR 0x27] @ ''.''),
           [''informe.docx'' \<mapsto> File d],
           [OpenDocument ''informe.docx'', SaveDocument ''informe.docx'' d])
      \<and> document_texts d = [''Enero'', ''{titleActivities}'']
      \<and> \<not> list_all marker_free (document_texts d)"
  by (simp add: generate_monthly_report_def generate_monthly_report_body_def isfile_def Let_def
      example_path_docx load_file_def store_file_def fill_defs tree_defs
      cell_marker_document_def py_in_Nil py_in_Cons replace_str.simps document_texts_def
      marker_free_def markers_def text_markers_def table_markers_def)

theorem run_formatting_lost:
  "\<exists>d. fill_document bold_month_document ''Enero'' ''a'' ''c'' ''r'' [] [] = Inr (d, True)
      \<and> d_body d = [Paragraph \<lparr>p_alignment = Some LEFT, p_props = ''Heading 1'',
                       p_runs = [\<lparr>r_bold = None, r_props = [], r_text = ''Mes: Enero''\<rparr>]\<rparr>]
      \<and> d_body d \<noteq> [Paragraph \<lparr>p_alignment = Some LEFT, p_props = ''Heading 1'',
                       p_runs = [\<lparr>r_bold = Some True, r_props = [], r_text = ''Mes: ''\<rparr>,
                                 \<lparr>r_bold = None, r_props = [], r_text = ''Enero''\<rparr>]\<rparr>]"
  by (simp add: fill_defs tree_defs bold_month_document_def py_in_Nil py_in_Cons
      replace_str.simps)

theorem cell_alignment_lost:
  "\<exists>d. fill_document centered_month_document ''Enero'' ''a'' ''c'' ''r'' [] [] = Inr (d, True)
      \<and> d_body d = [Table (plain_table
                      [[new_cell\<lparr>c_paragraphs :=
                          [\<lparr>p_alignment = None, p_props = [],
                            p_runs = [new_run ''Enero'']\<rparr>]\<rparr>]])]
      \<and> d_body d \<noteq> [Table (plain_table
                      [[new_cell\<lparr>c_paragraphs :=
                          [\<lparr>p_alignment = Some CENTER, p_props = [],
                            p_runs = [new_run ''Enero'']\<rparr>]\<rparr>]])]"
  by (simp add: fill_defs tree_defs centered_month_document_def py_in_Nil py_in_Cons
      replace_str.simps)

subsection \<open>Substitution and occurrences of markers\<close>

lemma replace_str_Nil: "old \<noteq> [] \<Longrightarrow> replace_str old new [] = []"
  by (simp add: replace_str.simps)

lemma replace_str_prefix:
  "old \<noteq> [] \<Longrightarrow> prefix old s \<Longrightarrow>
   replace_str old new s = new @ replace_str old new (drop (length old) s)"
  by (subst replace_str.simps) auto

lemma replace_str_Cons:
  "old \<noteq> [] \<Longrightarrow> \<not> prefix old (c # cs) \<Longrightarrow>
   replace_str old new (c # cs) = c # replace_str old new cs"
  by (subst replace_str.simps) simp

lemma prefix_replace_str:
  assumes "h \<notin> set t" and "prefix t s"
  shows "prefix t (replace_str (h # old) new s)"
  using assms
proof (induction t arbitrary: s)
  case Nil
  show ?case by simp
next
  case (Cons x xs)
  then obtain s' where s: "s = x # s'" and p: "prefix xs s'"
    by (cases s) auto
  from Cons.prems have "x \<noteq> h" and nin: "h \<notin> set xs" by auto
  then have "replace_str (h # old) new (x # s') = x # replace_str (h # old) new s'"
    by (simp add: replace_str_Cons)
  with Cons.IH [OF nin p] s show ?case by simp
qed

lemma sublist_skip:
  assumes "h \<notin> set u" and "sublist (h # t) (u @ x)"
  shows "sublist (h # t) x"
  using assms by (induction u) (auto simp: sublist_Cons_right)

lemma brace_marker_Cons:
  "brace_marker m \<Longrightarrow> \<exists>t. m = CHR ''{'' # t \<and> CHR ''{'' \<notin> set t"
  by (auto simp: brace_marker_def)

lemma closing_prefix_unique:
  assumes "c \<notin> set b'" and "prefix (b @ [c]) (b' @ [c])"
  shows "b = b'"
proof -
  from assms(2) have "b @ [c] = b' @ [c] \<or> prefix (b @ [c]) b'"
    by (simp only: prefix_snoc)
  moreover have "\<not> prefix (b @ [c]) b'"
  proof
    assume "prefix (b @ [c]) b'"
    then have "set (b @ [c]) \<subseteq> set b'" by (rule set_mono_prefix)
    with assms(1) show False by simp
  qed
  ultimately show ?thesis by simp
qed

lemma brace_marker_prefix_unique:
  assumes "brace_marker m" and "brace_marker m'" and "prefix m s" and "prefix m' s"
  shows "m = m'"
proof -
  from assms(1) obtain b where m: "m = CHR ''{'' # b @ [CHR ''}'']" "CHR ''}'' \<notin> set b"
    by (auto simp: brace_marker_def)
  from assms(2) obtain b' where m': "m' = CHR ''{'' # b' @ [CHR ''}'']" "CHR ''}'' \<notin> set b'"
    by (auto simp: brace_marker_def)
  from assms(3,4) have "prefix m m' \<or> prefix m' m"
    by (rule prefix_same_cases)
  then show ?thesis
  proof
    assume "prefix m m'"
    with m m' have "b = b'" by (auto dest: closing_prefix_unique)
    with m m' show ?thesis by simp
  next
    assume "prefix m' m"
    with m m' have "b' = b" by (auto dest: closing_prefix_unique)
    with m m' show ?thesis by simp
  qed
qed

lemma sublist_replace_str_other:
  assumes "brace_marker m" and "brace_marker m'" and "m \<noteq> m'" and "sublist m' s"
  shows "sublist m' (replace_str m v s)"
  using assms(4)
proof (induction "length s" arbitrary: s rule: less_induct)
  case less
  from assms(1) obtain t where m: "m = CHR ''{'' # t" "CHR ''{'' \<notin> set t"
    using brace_marker_Cons by blast
  from assms(2) obtain t' where m': "m' = CHR ''{'' # t'" "CHR ''{'' \<notin> set t'"
    using brace_marker_Cons by blast
  show ?case
  proof (cases "prefix m s")
    case True
    then obtain rest where s: "s = m @ rest" by (auto simp: prefix_def)
    have "\<not> prefix m' s"
      using brace_marker_prefix_unique [OF assms(1,2) True] assms(3) by blast
    with less.prems s m have "sublist m' (t @ rest)"
      by (simp add: sublist_Cons_right)
    then have "sublist m' rest"
      using sublist_skip [OF m(2)] m'(1) by blast
    moreover have "length rest < length s" using s m by simp
    ultimately have "sublist m' (replace_str m v rest)" by (rule less.hyps [rotated])
    then have "sublist m' (v @ replace_str m v rest)"
      by (auto simp: sublist_def) (metis append.assoc)
    moreover have "replace_str m v s = v @ replace_str m v rest"
      using replace_str_prefix [OF _ True] s m by simp
    ultimately show ?thesis by simp
  next
    case False
    from less.prems m' obtain c cs where s: "s = c # cs" by (cases s) auto
    from False s m have step: "replace_str m v s = c # replace_str m v cs"
      by (simp add: replace_str_Cons)
    from less.prems s have "prefix m' (c # cs) \<or> sublist m' cs"
      by (simp add: sublist_Cons_right)
    then show ?thesis
    proof
      assume "prefix m' (c # cs)"
      with m' have c: "c = CHR ''{''" and "prefix t' cs" by auto
      then have "prefix t' (replace_str m v cs)"
        using prefix_replace_str [OF m'(2)] m(1) by blast
      with c m' step show ?thesis by (simp add: sublist_Cons_right)
    next
      assume "sublist m' cs"
      moreover have "length cs < length s" using s by simp
      ultimately have "sublist m' (replace_str m v cs)" by (rule less.hyps [rotated])
      with step show ?thesis by (simp add: sublist_Cons_right)
    qed
  qed
qed

lemma nonest_from_skip:
  "CHR ''{'' \<notin> set b \<Longrightarrow> CHR ''}'' \<notin> set b \<Longrightarrow>
   nonest_from inside (b @ x) = nonest_from inside x"
  by (induction b) auto

lemma nonest_from_value:
  "CHR ''{'' \<notin> set v \<Longrightarrow> nonest_from False (v @ x) = nonest_from False x"
  by (induction v) auto

lemma nonest_from_marker:
  "brace_marker m \<Longrightarrow> nonest_from inside (m @ x) = (\<not> inside \<and> nonest_from False x)"
  by (auto simp: brace_marker_def nonest_from_skip)

lemma prefix_of_replace_inside:
  assumes "brace_marker m"
    and "CHR ''{'' \<notin> set b" and "CHR ''}'' \<notin> set b"
    and "nonest_from True cs"
    and "prefix (b @ [CHR ''}'']) (replace_str m v cs)"
  shows "prefix (b @ [CHR ''}'']) cs"
  using assms(2-)
proof (induction cs arbitrary: b)
  case Nil
  from assms(1) have "m \<noteq> []" by (auto simp: brace_marker_def)
  with Nil show ?case by (simp add: replace_str_Nil)
next
  case (Cons x xs)
  from assms(1) obtain t where m: "m = CHR ''{'' # t" using brace_marker_Cons by blast
  from Cons.prems(3) have x: "x \<noteq> CHR ''{''" by (auto split: if_splits)
  with m have step: "replace_str m v (x # xs) = x # replace_str m v xs"
    by (simp add: replace_str_Cons)
  show ?case
  proof (cases b)
    case Nil
    with Cons.prems(4) step show ?thesis by simp
  next
    case (Cons y ys)
    with Cons.prems(4) step have y: "y = x" and p: "prefix (ys @ [CHR ''}'']) (replace_str m v xs)"
      by auto
    from Cons Cons.prems(1,2) y have "x \<noteq> CHR ''}''" "CHR ''{'' \<notin> set ys" "CHR ''}'' \<notin> set ys"
      by auto
    moreover from this x Cons.prems(3) have "nonest_from True xs" by simp
    ultimately have "prefix (ys @ [CHR ''}'']) xs"
      using Cons.IH p by blast
    with Cons y show ?thesis by simp
  qed
qed

lemma replace_str_marker:
  assumes "brace_marker m" and "brace_marker m'" and "CHR ''{'' \<notin> set v"
    and "nonest_from inside s"
  shows "nonest_from inside (replace_str m v s)
       \<and> (sublist m' (replace_str m v s) \<longrightarrow> sublist m' s \<and> m' \<noteq> m)"
  using assms(4)
proof (induction "length s" arbitrary: s inside rule: less_induct)
  case less
  from assms(1) obtain t where m: "m = CHR ''{'' # t" "CHR ''{'' \<notin> set t"
    using brace_marker_Cons by blast
  from assms(2) obtain b' where m': "m' = CHR ''{'' # b' @ [CHR ''}'']"
    "CHR ''{'' \<notin> set b'" "CHR ''}'' \<notin> set b'"
    by (auto simp: brace_marker_def)
  show ?case
  proof (cases s)
    case Nil
    with m m' show ?thesis by (simp add: replace_str_Nil)
  next
    case (Cons c cs)
    show ?thesis
    proof (cases "prefix m s")
      case True
      then obtain rest where s: "s = m @ rest" by (auto simp: prefix_def)
      with less.prems have inside: "\<not> inside" and rest: "nonest_from False rest"
        by (simp_all add: nonest_from_marker [OF assms(1)])
      have "length rest < length s" using s m by simp
      from less.hyps [OF this rest]
      have ih: "nonest_from False (replace_str m v rest)"
        "sublist m' (replace_str m v rest) \<longrightarrow> sublist m' rest \<and> m' \<noteq> m"
        by simp_all
      have step: "replace_str m v s = v @ replace_str m v rest"
        using replace_str_prefix [OF _ True] s m by simp
      have 1: "nonest_from inside (replace_str m v s)"
        using inside ih(1) by (simp add: step nonest_from_value [OF assms(3)])
      have 2: "sublist m' s \<and> m' \<noteq> m" if "sublist m' (replace_str m v s)"
      proof -
        from that have "sublist m' (replace_str m v rest)"
          unfolding step using sublist_skip [OF assms(3)] m'(1) by blast
        with ih(2) have "sublist m' rest" "m' \<noteq> m" by simp_all
        moreover have "sublist rest s" unfolding s by simp
        ultimately show ?thesis using sublist_order.order_trans by blast
      qed
      from 1 2 show ?thesis by blast
    next
      case False
      with Cons m have step: "replace_str m v s = c # replace_str m v cs"
        by (simp add: replace_str_Cons)
      define inside' where "inside' = (if c = CHR ''{'' then True
                                       else if c = CHR ''}'' then False else inside)"
      from less.prems Cons have cs: "nonest_from inside' cs"
        and ok: "c = CHR ''{'' \<longrightarrow> \<not> inside"
        by (auto simp: inside'_def split: if_splits)
      have "length cs < length s" using Cons by simp
      from less.hyps [OF this cs]
      have ih: "nonest_from inside' (replace_str m v cs)"
        "sublist m' (replace_str m v cs) \<longrightarrow> sublist m' cs \<and> m' \<noteq> m"
        by simp_all
      have 1: "nonest_from inside (replace_str m v s)"
        using ih(1) ok by (auto simp: step inside'_def)
      have 2: "sublist m' s \<and> m' \<noteq> m" if "sublist m' (replace_str m v s)"
      proof -
        from that have "prefix m' (c # replace_str m v cs) \<or> sublist m' (replace_str m v cs)"
          by (simp add: step sublist_Cons_right)
        then show ?thesis
        proof
          assume p: "prefix m' (c # replace_str m v cs)"
          with m' have c: "c = CHR ''{''"
            and "prefix (b' @ [CHR ''}'']) (replace_str m v cs)" by auto
          moreover from c cs have "nonest_from True cs" by (simp add: inside'_def)
          ultimately have "prefix (b' @ [CHR ''}'']) cs"
            using prefix_of_replace_inside [OF assms(1) m'(2,3)] by blast
          with c m' Cons have "prefix m' s" by simp
          with False show ?thesis by auto
        next
          assume "sublist m' (replace_str m v cs)"
          with ih(2) Cons show ?thesis by (simp add: sublist_Cons_right)
        qed
      qed
      from 1 2 show ?thesis by blast
    qed
  qed
qed

subsection \<open>Texts and alignment of a filled paragraph and of a filled cell\<close>

lemma brace_marker_literal:
  "brace_marker (CHR ''{'' # b @ [CHR ''}'']) = (CHR ''{'' \<notin> set b \<and> CHR ''}'' \<notin> set b)"
  by (auto simp: brace_marker_def)

lemma brace_marker_activities: "brace_marker ''{activities}''"
  using brace_marker_literal [of "''activities''"] by simp

lemma brace_marker_month: "brace_marker ''{month}''"
  using brace_marker_literal [of "''month''"] by simp

lemma brace_marker_conclusions: "brace_marker ''{conclusions}''"
  using brace_marker_literal [of "''conclusions''"] by simp

lemma brace_marker_recommendations: "brace_marker ''{recommendations}''"
  using brace_marker_literal [of "''recommendations''"] by simp

lemma brace_marker_titleActivities: "brace_marker ''{titleActivities}''"
  using brace_marker_literal [of "''titleActivities''"] by simp

lemma brace_marker_descriptionActivities: "brace_marker ''{descriptionActivities}''"
  using brace_marker_literal [of "''descriptionActivities''"] by simp

lemma occurrence_kept:
  assumes "brace_marker m" and "brace_marker m'" and "m \<noteq> m'" and "py_in m' t"
  shows "py_in m' (if py_in m t then replace_str m v t else t)"
  using assms sublist_replace_str_other [of m m' t v] by (simp add: py_in_def)

lemma para_text_set_para_text [simp]: "para_text (set_para_text p t) = t"
  by (simp add: para_text_def set_para_text_def new_run_def)

lemma para_text_set_alignment [simp]: "para_text (set_alignment p a) = para_text p"
  by (simp add: para_text_def set_alignment_def)

lemma p_alignment_set_alignment [simp]: "p_alignment (set_alignment p a) = Some a"
  by (simp add: set_alignment_def)

lemma p_alignment_set_para_text [simp]: "p_alignment (set_para_text p t) = p_alignment p"
  by (simp add: set_para_text_def)

lemma p_props_set_alignment [simp]: "p_props (set_alignment p a) = p_props p"
  by (simp add: set_alignment_def)

lemma p_props_set_para_text [simp]: "p_props (set_para_text p t) = p_props p"
  by (simp add: set_para_text_def)

lemma cell_text_set_cell_text [simp]: "cell_text (set_cell_text c t) = t"
  by (simp add: cell_text_def set_cell_text_def para_text_def new_paragraph_def new_run_def)

lemma cell_text_justify_cell [simp]: "cell_text (justify_cell c) = cell_text c"
  by (simp add: cell_text_def justify_cell_def comp_def)

lemma c_paragraphs_justify_cell:
  "list_all (\<lambda>q. p_alignment q = Some JUSTIFY) (c_paragraphs (justify_cell c))"
  by (simp add: justify_cell_def list_all_iff)

lemma para_text_fill_paragraph:
  "para_text (fst (fill_paragraph month activities conclusiones recommendations p))
   = fill_text month activities conclusiones recommendations (para_text p)"
proof (cases "has_text_marker (para_text p)")
  case True
  show ?thesis
    using True by (simp add: fill_paragraph_def fill_text_def Let_def)
next
  case False
  then show ?thesis
    by (simp add: fill_paragraph_def fill_text_def has_text_marker_def)
qed

lemma cell_text_fill_cell:
  "cell_text (fst (fill_cell month activities conclusiones recommendations c))
   = fill_text month activities conclusiones recommendations (cell_text c)"
proof (cases "has_text_marker (cell_text c)")
  case True
  show ?thesis
    using True by (simp add: fill_cell_def fill_text_def Let_def)
next
  case False
  then show ?thesis
    by (simp add: fill_cell_def fill_text_def has_text_marker_def)
qed

lemma p_props_fill_paragraph:
  "p_props (fst (fill_paragraph month activities conclusiones recommendations p)) = p_props p"
proof (cases "has_text_marker (para_text p)")
  case True
  show ?thesis using True by (simp add: fill_paragraph_def Let_def)
next
  case False
  then show ?thesis by (simp add: fill_paragraph_def)
qed

lemma fill_paragraph_justified:
  assumes "py_in ''{activities}'' (para_text p) \<or> py_in ''{conclusions}'' (para_text p)
           \<or> py_in ''{recommendations}'' (para_text p)"
  shows "p_alignment (fst (fill_paragraph month activities conclusiones recommendations p))
         = Some JUSTIFY"
proof -
  define p1 where "p1 = (if py_in ''{activities}'' (para_text p)
                  then set_alignment
                         (set_para_text p (replace_str ''{activities}'' activities (para_text p)))
                         JUSTIFY
                  else p)"
  define p2 where "p2 = (if py_in ''{month}'' (para_text p1)
                then set_para_text p1 (replace_str ''{month}'' month (para_text p1)) else p1)"
  define p3 where "p3 = (if py_in ''{conclusions}'' (para_text p2)
                then set_alignment
                       (set_para_text p2 (replace_str ''{conclusions}'' conclusiones (para_text p2)))
                       JUSTIFY
                else p2)"
  from assms have has: "has_text_marker (para_text p)"
    by (auto simp: has_text_marker_def)
  have res: "fst (fill_paragraph month activities conclusiones recommendations p) =
     (if py_in ''{recommendations}'' (para_text p3)
      then set_alignment
             (set_para_text p3 (replace_str ''{recommendations}'' recommendations (para_text p3)))
             JUSTIFY
      else p3)"
    using has by (simp add: fill_paragraph_def Let_def p1_def p2_def p3_def)
  have t1: "para_text p1 = (if py_in ''{activities}'' (para_text p)
      then replace_str ''{activities}'' activities (para_text p) else para_text p)"
    by (simp add: p1_def)
  have t2: "para_text p2 = (if py_in ''{month}'' (para_text p1)
      then replace_str ''{month}'' month (para_text p1) else para_text p1)"
    by (simp add: p2_def)
  have t3: "para_text p3 = (if py_in ''{conclusions}'' (para_text p2)
      then replace_str ''{conclusions}'' conclusiones (para_text p2) else para_text p2)"
    by (simp add: p3_def)
  have a2: "p_alignment p2 = p_alignment p1" by (simp add: p2_def)
  have a3: "py_in ''{conclusions}'' (para_text p2) \<Longrightarrow> p_alignment p3 = Some JUSTIFY"
    by (simp add: p3_def)
  have a3': "\<not> py_in ''{conclusions}'' (para_text p2) \<Longrightarrow> p3 = p2"
    by (simp add: p3_def)
  show ?thesis
  proof (cases "py_in ''{activities}'' (para_text p)")
    case True
    then have "p_alignment p1 = Some JUSTIFY" by (simp add: p1_def)
    with a2 have "p_alignment p3 = Some JUSTIFY" by (simp add: p3_def)
    then show ?thesis by (simp add: res)
  next
    case False
    then have p1: "p1 = p" by (simp add: p1_def)
    from False assms have "py_in ''{conclusions}'' (para_text p)
        \<or> py_in ''{recommendations}'' (para_text p)" by simp
    then show ?thesis
    proof
      assume "py_in ''{conclusions}'' (para_text p)"
      then have "py_in ''{conclusions}'' (para_text p2)"
        unfolding t2 p1
        by (intro occurrence_kept brace_marker_month brace_marker_conclusions) simp_all
      then have "p_alignment p3 = Some JUSTIFY" by (rule a3)
      then show ?thesis by (simp add: res)
    next
      assume "py_in ''{recommendations}'' (para_text p)"
      then have "py_in ''{recommendations}'' (para_text p2)"
        unfolding t2 p1
        by (intro occurrence_kept brace_marker_month brace_marker_recommendations) simp_all
      then have "py_in ''{recommendations}'' (para_text p3)"
        unfolding t3
        by (intro occurrence_kept brace_marker_conclusions brace_marker_recommendations) simp_all
      then show ?thesis by (simp add: res)
    qed
  qed
qed

lemma fill_cell_justified:
  assumes "py_in ''{conclusions}'' (cell_text c) \<or> py_in ''{recommendations}'' (cell_text c)"
  shows "list_all (\<lambda>q. p_alignment q = Some JUSTIFY)
           (c_paragraphs (fst (fill_cell month activities conclusiones recommendations c)))"
proof -
  define c1 where "c1 = (if py_in ''{activities}'' (cell_text c)
                  then justify_cell
                         (set_cell_text c (replace_str ''{activities}'' activities (cell_text c)))
                  else c)"
  define c2 where "c2 = (if py_in ''{month}'' (cell_text c1)
                then set_cell_text c1 (replace_str ''{month}'' month (cell_text c1)) else c1)"
  define c3 where "c3 = (if py_in ''{conclusions}'' (cell_text c2)
                then justify_cell
                       (set_cell_text c2 (replace_str ''{conclusions}'' conclusiones (cell_text c2)))
                else c2)"
  from assms have has: "has_text_marker (cell_text c)"
    by (auto simp: has_text_marker_def)
  have res: "fst (fill_cell month activities conclusiones recommendations c) =
     (if py_in ''{recommendations}'' (cell_text c3)
      then justify_cell
             (set_cell_text c3 (replace_str ''{recommendations}'' recommendations (cell_text c3)))
      else c3)"
    using has by (simp add: fill_cell_def Let_def c1_def c2_def c3_def)
  have t1: "cell_text c1 = (if py_in ''{activities}'' (cell_text c)
      then replace_str ''{activities}'' activities (cell_text c) else cell_text c)"
    by (simp add: c1_def)
  have t2: "cell_text c2 = (if py_in ''{month}'' (cell_text c1)
      then replace_str ''{month}'' month (cell_text c1) else cell_text c1)"
    by (simp add: c2_def)
  have t3: "cell_text c3 = (if py_in ''{conclusions}'' (cell_text c2)
      then replace_str ''{conclusions}'' conclusiones (cell_text c2) else cell_text c2)"
    by (simp add: c3_def)
  have last: "py_in ''{recommendations}'' (cell_text c3) \<Longrightarrow> ?thesis"
    by (simp add: res c_paragraphs_justify_cell)
  have a3: "py_in ''{conclusions}'' (cell_text c2) \<Longrightarrow>
      list_all (\<lambda>q. p_alignment q = Some JUSTIFY) (c_paragraphs c3)"
    by (simp add: c3_def c_paragraphs_justify_cell)
  from assms show ?thesis
  proof
    assume "py_in ''{conclusions}'' (cell_text c)"
    then have "py_in ''{conclusions}'' (cell_text c1)"
      unfolding t1
      by (intro occurrence_kept brace_marker_activities brace_marker_conclusions) simp_all
    then have "py_in ''{conclusions}'' (cell_text c2)"
      unfolding t2
      by (intro occurrence_kept brace_marker_month brace_marker_conclusions) simp_all
    then have "list_all (\<lambda>q. p_alignment q = Some JUSTIFY) (c_paragraphs c3)" by (rule a3)
    then show ?thesis
      by (cases "py_in ''{recommendations}'' (cell_text c3)") (simp_all add: last, simp add: res)
  next
    assume "py_in ''{recommendations}'' (cell_text c)"
    then have "py_in ''{recommendations}'' (cell_text c1)"
      unfolding t1
      by (intro occurrence_kept brace_marker_activities brace_marker_recommendations) simp_all
    then have "py_in ''{recommendations}'' (cell_text c2)"
      unfolding t2
      by (intro occurrence_kept brace_marker_month brace_marker_recommendations) simp_all
    then have "py_in ''{recommendations}'' (cell_text c3)"
      unfolding t3
      by (intro occurrence_kept brace_marker_conclusions brace_marker_recommendations) simp_all
    then show ?thesis by (rule last)
  qed
qed

lemma fill_paragraph_month_only:
  assumes "py_in ''{month}'' (para_text p)"
    and "\<not> py_in ''{activities}'' (para_text p)"
    and "\<not> py_in ''{conclusions}'' (replace_str ''{month}'' month (para_text p))"
    and "\<not> py_in ''{recommendations}'' (replace_str ''{month}'' month (para_text p))"
  shows "fst (fill_paragraph month activities conclusiones recommendations p)
         = set_para_text p (replace_str ''{month}'' month (para_text p))"
proof -
  from assms(1) have has: "has_text_marker (para_text p)"
    by (simp add: has_text_marker_def)
  show ?thesis using assms has by (simp add: fill_paragraph_def Let_def)
qed

lemma fill_cell_month_only:
  assumes "py_in ''{month}'' (cell_text c)"
    and "\<not> py_in ''{activities}'' (cell_text c)"
    and "\<not> py_in ''{conclusions}'' (replace_str ''{month}'' month (cell_text c))"
    and "\<not> py_in ''{recommendations}'' (replace_str ''{month}'' month (cell_text c))"
  shows "fst (fill_cell month activities conclusiones recommendations c)
         = set_cell_text c (replace_str ''{month}'' month (cell_text c))"
proof -
  from assms(1) have has: "has_text_marker (cell_text c)"
    by (simp add: has_text_marker_def)
  show ?thesis using assms has by (simp add: fill_cell_def Let_def)
qed

end
